theory Spec2Isabelle
  imports Complex_Main
begin

section \<open>The invoice tax breakdown of the GST billing application\<close>

text \<open>
  This theory embeds the computation of \<^verbatim>\<open>invoice_viewer\<close> in
  \<^verbatim>\<open>src/gstbillingapp/views.py\<close>: the classification of an invoice from the two
  GSTINs, the tax of each line item in Python's \<^verbatim>\<open>Decimal\<close> arithmetic, the totals
  and the HSN digit check.  Everything the Python code can raise on the way is a value
  of the type \<open>error\<close>.
\<close>

subsection \<open>Values read from the stored JSON\<close>

text \<open>
  A Python \<^verbatim>\<open>str\<close> is a sequence of code points.  Here it is a \<open>string\<close> whose
  characters are the code points below 256, so that \<open>length\<close> counts what Python's
  \<^verbatim>\<open>len\<close> counts.  A float is carried by its \<^verbatim>\<open>repr\<close> (the text that \<^verbatim>\<open>str\<close>
  gives for it), since the code reads a float only through its truth value and through
  \<^verbatim>\<open>str\<close>.  A dictionary is an association list read with \<open>map_of\<close>.
\<close>

datatype json =
    JNull
  | JBool bool
  | JInt int
  | JFloat string
  | JStr string
  | JList "json list"
  | JDict "(string \<times> json) list"

datatype error = AttributeError | TypeError | InvalidOperation | Overflow | DivisionByZero

text \<open>Sequencing of two steps, the second of which runs only if the first one returned.\<close>

definition and_then :: "error + 'a \<Rightarrow> ('a \<Rightarrow> error + 'b) \<Rightarrow> error + 'b" where
  "and_then r f = (case r of Inl e \<Rightarrow> Inl e | Inr x \<Rightarrow> f x)"

text \<open>Python's truth value of an object, as \<^verbatim>\<open>or\<close> and \<^verbatim>\<open>if\<close> test it.\<close>

fun truthy :: "json \<Rightarrow> bool" where
  "truthy JNull = False"
| "truthy (JBool b) = b"
| "truthy (JInt n) = (n \<noteq> 0)"
| "truthy (JFloat r) = (r \<noteq> ''0.0'' \<and> r \<noteq> ''-0.0'')"
| "truthy (JStr s) = (s \<noteq> [])"
| "truthy (JList xs) = (xs \<noteq> [])"
| "truthy (JDict kvs) = (kvs \<noteq> [])"

definition py_or :: "json \<Rightarrow> json \<Rightarrow> json" where
  "py_or a b = (if truthy a then a else b)"

text \<open>\<^verbatim>\<open>obj.get(key, default)\<close>: only a dictionary has the method.\<close>

definition dict_get :: "(string \<times> json) list \<Rightarrow> string \<Rightarrow> json \<Rightarrow> json" where
  "dict_get kvs k dflt = (case map_of kvs k of None \<Rightarrow> dflt | Some v \<Rightarrow> v)"

definition obj_get :: "json \<Rightarrow> string \<Rightarrow> json \<Rightarrow> error + json" where
  "obj_get obj k dflt =
     (case obj of
        JDict kvs \<Rightarrow> Inr (dict_get kvs k dflt)
      | _ \<Rightarrow> Inl AttributeError)"

subsection \<open>Characters and strings\<close>

text \<open>
  \<^verbatim>\<open>str.isdigit\<close> holds for the characters of numeric type Digit or Decimal: below
  256 these are the ten ASCII digits and the superscripts two, three and one (178, 179,
  185).  \<^verbatim>\<open>str.strip\<close> removes the characters for which \<^verbatim>\<open>str.isspace\<close> holds.
\<close>

definition ascii_digit :: "char \<Rightarrow> bool" where
  "ascii_digit c = (48 \<le> (of_char c :: nat) \<and> (of_char c :: nat) \<le> 57)"

definition py_isdigit :: "char \<Rightarrow> bool" where
  "py_isdigit c = (ascii_digit c \<or> (of_char c :: nat) \<in> {178, 179, 185})"

definition py_isspace :: "char \<Rightarrow> bool" where
  "py_isspace c =
     ((9 \<le> (of_char c :: nat) \<and> (of_char c :: nat) \<le> 13)
      \<or> (28 \<le> (of_char c :: nat) \<and> (of_char c :: nat) \<le> 32)
      \<or> (of_char c :: nat) \<in> {133, 160})"

definition str_isdigit :: "string \<Rightarrow> bool" where
  "str_isdigit s = (s \<noteq> [] \<and> list_all py_isdigit s)"

definition py_strip :: "string \<Rightarrow> string" where
  "py_strip s = rev (dropWhile py_isspace (rev (dropWhile py_isspace s)))"

subsection \<open>Classification\<close>

datatype invoice_type = B2B | B2C

datatype tax_mode = INTRA | INTER

record customer =
  customer_gst :: "string option"

text \<open>
  \<^verbatim>\<open>seller_gst = (user_profile.business_gst or "").strip()\<close>
\<close>

definition seller_gst_of :: "string option \<Rightarrow> string" where
  "seller_gst_of business_gst =
     py_strip (case business_gst of None \<Rightarrow> [] | Some s \<Rightarrow> s)"

text \<open>
  The buyer's GSTIN is the customer's when an invoice customer is linked and its GSTIN
  is truthy; otherwise \<^verbatim>\<open>invoice_data.get("customer_gst", "").strip()\<close>, which raises
  when \<^verbatim>\<open>invoice_data\<close> is no dictionary or the stored value is no string.
\<close>

definition linked_gst :: "customer option \<Rightarrow> string option" where
  "linked_gst c =
     (case c of
        None \<Rightarrow> None
      | Some cu \<Rightarrow>
          (case customer_gst cu of
             None \<Rightarrow> None
           | Some s \<Rightarrow> if s \<noteq> [] then Some s else None))"

definition buyer_gst_of :: "customer option \<Rightarrow> json \<Rightarrow> error + string" where
  "buyer_gst_of c invoice_data =
     (case linked_gst c of
        Some s \<Rightarrow> Inr (py_strip s)
      | None \<Rightarrow>
          and_then (obj_get invoice_data ''customer_gst'' (JStr []))
            (\<lambda>v. case v of JStr s \<Rightarrow> Inr (py_strip s) | _ \<Rightarrow> Inl AttributeError))"

definition invoice_type_of :: "string \<Rightarrow> invoice_type" where
  "invoice_type_of buyer_gst = (if buyer_gst \<noteq> [] then B2B else B2C)"

definition gst_state :: "string \<Rightarrow> string option" where
  "gst_state gstin =
     (if gstin \<noteq> [] \<and> length gstin \<ge> 2 \<and> str_isdigit (take 2 gstin)
      then Some (take 2 gstin) else None)"

definition tax_mode_of :: "string \<Rightarrow> string \<Rightarrow> tax_mode" where
  "tax_mode_of seller_gst buyer_gst =
     (case (gst_state seller_gst, gst_state buyer_gst) of
        (Some s, Some b) \<Rightarrow> if s \<noteq> [] \<and> b \<noteq> [] \<and> s = b then INTRA else INTER
      | _ \<Rightarrow> INTER)"

subsection \<open>Python's \<^verbatim>\<open>Decimal\<close>\<close>

text \<open>
  A finite \<^verbatim>\<open>Decimal\<close> is a sign (\<open>True\<close> for minus), a coefficient and an
  exponent; its value is \<open>\<plusminus> coefficient * 10 ^ exponent\<close>.  The arithmetic runs
  in the default context: 28 digits of precision, rounding half-even, exponents between
  \<open>- 999999\<close> and \<open>999999\<close>, and the signals InvalidOperation, DivisionByZero and
  Overflow raise.  The sign and the payload of a NaN are not represented.
\<close>

datatype decimal = Dec bool nat int | Infinity bool | QNaN | SNaN

datatype rounding = ROUND_HALF_UP | ROUND_HALF_EVEN

definition prec :: nat where "prec = 28"
definition Emax :: int where "Emax = 999999"
definition Emin :: int where "Emin = - 999999"
definition Etiny :: int where "Etiny = Emin - int prec + 1"
definition Etop :: int where "Etop = Emax - int prec + 1"

text \<open>\<^verbatim>\<open>len(self._int)\<close>: the number of decimal digits of the coefficient.\<close>

fun ndigits :: "nat \<Rightarrow> nat" where
  "ndigits n = (if n < 10 then 1 else Suc (ndigits (n div 10)))"

declare ndigits.simps [simp del]

text \<open>
  Dropping the last \<open>k\<close> digits of a coefficient under a rounding mode
  (\<^verbatim>\<open>_round_half_up\<close>, \<^verbatim>\<open>_round_half_even\<close>).
\<close>

definition round_digits :: "rounding \<Rightarrow> nat \<Rightarrow> nat \<Rightarrow> nat" where
  "round_digits rm c k =
     (let q = c div 10 ^ k; r = c mod 10 ^ k in
      case rm of
        ROUND_HALF_UP \<Rightarrow> if 2 * r \<ge> 10 ^ k then q + 1 else q
      | ROUND_HALF_EVEN \<Rightarrow> if 2 * r > 10 ^ k \<or> (2 * r = 10 ^ k \<and> odd q) then q + 1 else q)"

text \<open>\<^verbatim>\<open>_rescale\<close>: the coefficient at exponent \<open>q\<close>, padded with zeros or rounded.\<close>

definition rescale :: "rounding \<Rightarrow> nat \<Rightarrow> int \<Rightarrow> int \<Rightarrow> nat" where
  "rescale rm c e q =
     (if e \<ge> q then c * 10 ^ nat (e - q) else round_digits rm c (nat (q - e)))"

text \<open>
  \<^verbatim>\<open>_fix\<close>: bring an exact result into the context.  More than \<open>prec\<close> digits are
  rounded half-even, a result above \<open>Emax\<close> raises Overflow, a result below \<open>Etiny\<close>
  is rounded at \<open>Etiny\<close>.
\<close>

definition dec_fix :: "bool \<Rightarrow> nat \<Rightarrow> int \<Rightarrow> error + decimal" where
  "dec_fix s c e =
     (if c = 0 then Inr (Dec s 0 (min (max e Etiny) Emax))
      else if int (ndigits c) + e - int prec > Etop then Inl Overflow
      else
        (let exp_min = max (int (ndigits c) + e - int prec) Etiny in
         if e < exp_min then
           (let c' = round_digits ROUND_HALF_EVEN c (nat (exp_min - e)) in
            if ndigits c' > prec then
              (if exp_min + 1 > Etop then Inl Overflow
               else Inr (Dec s (c' div 10) (exp_min + 1)))
            else Inr (Dec s c' exp_min))
         else Inr (Dec s c e)))"

fun dec_mul :: "decimal \<Rightarrow> decimal \<Rightarrow> error + decimal" where
  "dec_mul SNaN y = Inl InvalidOperation"
| "dec_mul x SNaN = Inl InvalidOperation"
| "dec_mul QNaN y = Inr QNaN"
| "dec_mul x QNaN = Inr QNaN"
| "dec_mul (Infinity s) (Infinity t) = Inr (Infinity (s \<noteq> t))"
| "dec_mul (Infinity s) (Dec t d f) =
     (if d = 0 then Inl InvalidOperation else Inr (Infinity (s \<noteq> t)))"
| "dec_mul (Dec s c e) (Infinity t) =
     (if c = 0 then Inl InvalidOperation else Inr (Infinity (s \<noteq> t)))"
| "dec_mul (Dec s c e) (Dec t d f) = dec_fix (s \<noteq> t) (c * d) (e + f)"

text \<open>
  The loop of \<^verbatim>\<open>__truediv__\<close> that removes trailing zeros of an exact quotient
  until the ideal exponent is reached.
\<close>

function strip_zeros :: "nat \<Rightarrow> int \<Rightarrow> int \<Rightarrow> nat \<times> int" where
  "strip_zeros c e ideal =
     (if e < ideal \<and> c mod 10 = 0 then strip_zeros (c div 10) (e + 1) ideal else (c, e))"
  by pat_completeness auto
termination
  by (relation "measure (\<lambda>(c, e, ideal). nat (ideal - e))") auto

declare strip_zeros.simps [simp del]

fun dec_div :: "decimal \<Rightarrow> decimal \<Rightarrow> error + decimal" where
  "dec_div SNaN y = Inl InvalidOperation"
| "dec_div x SNaN = Inl InvalidOperation"
| "dec_div QNaN y = Inr QNaN"
| "dec_div x QNaN = Inr QNaN"
| "dec_div (Infinity s) (Infinity t) = Inl InvalidOperation"
| "dec_div (Infinity s) (Dec t d f) = Inr (Infinity (s \<noteq> t))"
| "dec_div (Dec s c e) (Infinity t) = Inr (Dec (s \<noteq> t) 0 Etiny)"
| "dec_div (Dec s c e) (Dec t d f) =
     (if d = 0 then (if c = 0 then Inl InvalidOperation else Inl DivisionByZero)
      else if c = 0 then dec_fix (s \<noteq> t) 0 (e - f)
      else
        (let shift = int (ndigits d) - int (ndigits c) + int prec + 1;
             ex = e - f - shift;
             num = (if shift \<ge> 0 then c * 10 ^ nat shift else c);
             den = (if shift \<ge> 0 then d else d * 10 ^ nat (- shift));
             q = num div den;
             r = num mod den
         in if r \<noteq> 0 then dec_fix (s \<noteq> t) (if q mod 5 = 0 then q + 1 else q) ex
            else (case strip_zeros q ex (e - f) of (q', ex') \<Rightarrow> dec_fix (s \<noteq> t) q' ex')))"

text \<open>
  \<^verbatim>\<open>__add__\<close>: the operands are aligned at the smaller exponent, added exactly, and
  the sum is brought into the context.
\<close>

definition signed :: "bool \<Rightarrow> nat \<Rightarrow> int" where
  "signed s c = (if s then - int c else int c)"

fun dec_add :: "decimal \<Rightarrow> decimal \<Rightarrow> error + decimal" where
  "dec_add SNaN y = Inl InvalidOperation"
| "dec_add x SNaN = Inl InvalidOperation"
| "dec_add QNaN y = Inr QNaN"
| "dec_add x QNaN = Inr QNaN"
| "dec_add (Infinity s) (Infinity t) =
     (if s \<noteq> t then Inl InvalidOperation else Inr (Infinity s))"
| "dec_add (Infinity s) (Dec t d f) = Inr (Infinity s)"
| "dec_add (Dec s c e) (Infinity t) = Inr (Infinity t)"
| "dec_add (Dec s c e) (Dec t d f) =
     (let ex = min e f in
      if c = 0 \<and> d = 0 then dec_fix (s \<and> t) 0 ex
      else if c = 0 then
        (let ex' = max ex (f - int prec - 1) in
         dec_fix t (rescale ROUND_HALF_EVEN d f ex') ex')
      else if d = 0 then
        (let ex' = max ex (e - int prec - 1) in
         dec_fix s (rescale ROUND_HALF_EVEN c e ex') ex')
      else
        (let r = signed s c * 10 ^ nat (e - ex) + signed t d * 10 ^ nat (f - ex) in
         if r = 0 then dec_fix False 0 ex else dec_fix (r < 0) (nat \<bar>r\<bar>) ex))"

text \<open>\<^verbatim>\<open>self.quantize(exp, rounding)\<close>: \<open>x\<close> at the exponent of \<open>y\<close>.\<close>

fun dec_quantize :: "rounding \<Rightarrow> decimal \<Rightarrow> decimal \<Rightarrow> error + decimal" where
  "dec_quantize rm SNaN y = Inl InvalidOperation"
| "dec_quantize rm x SNaN = Inl InvalidOperation"
| "dec_quantize rm QNaN y = Inr QNaN"
| "dec_quantize rm x QNaN = Inr QNaN"
| "dec_quantize rm (Infinity s) (Infinity t) = Inr (Infinity s)"
| "dec_quantize rm (Infinity s) (Dec t d f) = Inl InvalidOperation"
| "dec_quantize rm (Dec s c e) (Infinity t) = Inl InvalidOperation"
| "dec_quantize rm (Dec s c e) (Dec t d q) =
     (if \<not> (Etiny \<le> q \<and> q \<le> Emax) then Inl InvalidOperation
      else if c = 0 then dec_fix s 0 q
      else if int (ndigits c) + e - 1 > Emax then Inl InvalidOperation
      else if int (ndigits c) + e - 1 - q + 1 > int prec then Inl InvalidOperation
      else
        (let c' = rescale rm c e q in
         if int (ndigits c') + q - 1 > Emax then Inl InvalidOperation
         else if ndigits c' > prec then Inl InvalidOperation
         else dec_fix s c' q))"

text \<open>The literals \<^verbatim>\<open>Decimal("0.01")\<close>, \<^verbatim>\<open>Decimal("0.00")\<close>, \<^verbatim>\<open>Decimal("100")\<close>
  and the integer \<^verbatim>\<open>2\<close> as a divisor.\<close>

definition cent :: decimal where "cent = Dec False 1 (- 2)"
definition zero2 :: decimal where "zero2 = Dec False 0 (- 2)"
definition hundred :: decimal where "hundred = Dec False 100 0"
definition two :: decimal where "two = Dec False 2 0"

subsection \<open>Reading a number: \<^verbatim>\<open>Decimal(str(v))\<close>\<close>

definition digits_to_nat :: "string \<Rightarrow> nat" where
  "digits_to_nat ds = foldl (\<lambda>a c. 10 * a + ((of_char c :: nat) - 48)) 0 ds"

definition lower_ascii :: "char \<Rightarrow> char" where
  "lower_ascii c =
     (if 65 \<le> (of_char c :: nat) \<and> (of_char c :: nat) \<le> 90
      then char_of ((of_char c :: nat) + 32) else c)"

definition split_sign :: "string \<Rightarrow> bool \<times> string" where
  "split_sign s =
     (case s of
        [] \<Rightarrow> (False, [])
      | c # t \<Rightarrow>
          if c = CHR ''-'' then (True, t)
          else if c = CHR ''+'' then (False, t)
          else (False, s))"

text \<open>The exponent part after the letter E: an optional sign and at least one digit.\<close>

definition parse_exp :: "string \<Rightarrow> int option" where
  "parse_exp r =
     (case split_sign r of
        (neg, ds) \<Rightarrow>
          if ds \<noteq> [] \<and> list_all ascii_digit ds
          then Some (if neg then - int (digits_to_nat ds) else int (digits_to_nat ds))
          else None)"

text \<open>
  The numeric alternative of the grammar of \<^verbatim>\<open>Decimal\<close>: digits, an optional
  fraction, an optional exponent, with at least one digit before the exponent.  The
  result is the coefficient and the exponent.
\<close>

definition parse_numeric :: "string \<Rightarrow> (nat \<times> int) option" where
  "parse_numeric u =
     (let ip = takeWhile ascii_digit u;
          r1 = dropWhile ascii_digit u;
          fp = (case r1 of
                  [] \<Rightarrow> []
                | c # r \<Rightarrow> if c = CHR ''.'' then takeWhile ascii_digit r else []);
          r2 = (case r1 of
                  [] \<Rightarrow> []
                | c # r \<Rightarrow> if c = CHR ''.'' then dropWhile ascii_digit r else r1)
      in if ip = [] \<and> fp = [] then None
         else
           (case r2 of
              [] \<Rightarrow> Some (digits_to_nat (ip @ fp), - int (length fp))
            | c # r \<Rightarrow>
                if c = CHR ''E'' \<or> c = CHR ''e'' then
                  (case parse_exp r of
                     None \<Rightarrow> None
                   | Some x \<Rightarrow> Some (digits_to_nat (ip @ fp), x - int (length fp)))
                else None))"

text \<open>
  \<^verbatim>\<open>Decimal(s)\<close> for a string: white space is stripped and underscores are removed,
  then the text is a number, an infinity or a NaN, or InvalidOperation is raised.
\<close>

definition decimal_of_str :: "string \<Rightarrow> error + decimal" where
  "decimal_of_str s =
     (case split_sign (filter (\<lambda>c. c \<noteq> CHR ''_'') (py_strip s)) of
        (neg, u) \<Rightarrow>
          (case parse_numeric u of
             Some (c, e) \<Rightarrow> Inr (Dec neg c e)
           | None \<Rightarrow>
               (let l = map lower_ascii u in
                if l = ''inf'' \<or> l = ''infinity'' then Inr (Infinity neg)
                else if take 3 l = ''nan'' \<and> list_all ascii_digit (drop 3 l) then Inr QNaN
                else if take 4 l = ''snan'' \<and> list_all ascii_digit (drop 4 l) then Inr SNaN
                else Inl InvalidOperation)))"

text \<open>
  \<^verbatim>\<open>Decimal(str(v))\<close>.  The text of an integer is its decimal numeral, which
  \<^verbatim>\<open>Decimal\<close> reads exactly; a string is its own text; the text of a Boolean or of
  \<^verbatim>\<open>None\<close> is a word; the text of a list or of a dictionary starts with a bracket
  or a brace, which no number does.
\<close>

fun Decimal_str :: "json \<Rightarrow> error + decimal" where
  "Decimal_str (JInt n) = Inr (Dec (n < 0) (nat \<bar>n\<bar>) 0)"
| "Decimal_str (JStr s) = decimal_of_str s"
| "Decimal_str (JFloat r) = decimal_of_str r"
| "Decimal_str (JBool b) = decimal_of_str (if b then ''True'' else ''False'')"
| "Decimal_str JNull = decimal_of_str ''None''"
| "Decimal_str (JList xs) = Inl InvalidOperation"
| "Decimal_str (JDict kvs) = Inl InvalidOperation"

text \<open>\<^verbatim>\<open>Decimal(str(it.get(key) or default))\<close>\<close>

definition item_decimal :: "json \<Rightarrow> string \<Rightarrow> int \<Rightarrow> error + decimal" where
  "item_decimal it k dflt =
     and_then (obj_get it k JNull) (\<lambda>v. Decimal_str (py_or v (JInt dflt)))"

subsection \<open>The tax of one line\<close>

text \<open>
  \<^verbatim>\<open>taxable_value = (qty * rate).quantize(Decimal("0.01"), ROUND_HALF_UP)\<close>
\<close>

definition taxable_of :: "decimal \<Rightarrow> decimal \<Rightarrow> error + decimal" where
  "taxable_of q r = and_then (dec_mul q r) (\<lambda>p. dec_quantize ROUND_HALF_UP p cent)"

text \<open>
  \<^verbatim>\<open>tax_value = (taxable_value * tax_percent / Decimal("100")).quantize(Decimal("0.01"), ROUND_HALF_UP)\<close>
\<close>

definition tax_of :: "decimal \<Rightarrow> decimal \<Rightarrow> error + decimal" where
  "tax_of tv tp =
     and_then (dec_mul tv tp)
       (\<lambda>p. and_then (dec_div p hundred) (\<lambda>q. dec_quantize ROUND_HALF_UP q cent))"

text \<open>\<^verbatim>\<open>(tax_value / 2).quantize(Decimal("0.01"), ROUND_HALF_UP)\<close>\<close>

definition half_of :: "decimal \<Rightarrow> error + decimal" where
  "half_of tx = and_then (dec_div tx two) (\<lambda>h. dec_quantize ROUND_HALF_UP h cent)"

text \<open>The three parts \<open>(cgst, sgst, igst)\<close> of the tax of a line.\<close>

definition gst_split :: "tax_mode \<Rightarrow> decimal \<Rightarrow> error + decimal \<times> decimal \<times> decimal" where
  "gst_split mode tx =
     (case mode of
        INTRA \<Rightarrow>
          and_then (half_of tx) (\<lambda>c. and_then (half_of tx) (\<lambda>s. Inr (c, s, zero2)))
      | INTER \<Rightarrow> Inr (zero2, zero2, tx))"

subsection \<open>The HSN digit check\<close>

text \<open>
  \<^verbatim>\<open>for x in obj\<close>: a list gives its elements, a string its characters, a
  dictionary its keys; nothing else can be iterated.
\<close>

fun py_iter :: "json \<Rightarrow> error + json list" where
  "py_iter (JList xs) = Inr xs"
| "py_iter (JStr s) = Inr (map (\<lambda>c. JStr [c]) s)"
| "py_iter (JDict kvs) = Inr (map (\<lambda>kv. JStr (fst kv)) kvs)"
| "py_iter v = Inl TypeError"

text \<open>
  \<^verbatim>\<open>"".join(ch for ch in hsn if ch.isdigit())\<close> over the elements that the
  iteration gives: an element that is no string has no \<^verbatim>\<open>isdigit\<close>.
\<close>

fun hsn_join :: "json list \<Rightarrow> error + string" where
  "hsn_join [] = Inr []"
| "hsn_join (JStr s # xs) =
     and_then (hsn_join xs) (\<lambda>r. Inr (if str_isdigit s then s @ r else r))"
| "hsn_join (v # xs) = Inl AttributeError"

definition hsn_digits_of :: "json \<Rightarrow> error + string" where
  "hsn_digits_of h = and_then (py_iter h) hsn_join"

definition recommended_of :: "invoice_type \<Rightarrow> nat" where
  "recommended_of itype = (if itype = B2B then 6 else 4)"

text \<open>The pair of \<^verbatim>\<open>hsn_warning\<close> and \<^verbatim>\<open>hsn_recommended\<close> of a line.\<close>

definition hsn_check :: "json \<Rightarrow> invoice_type \<Rightarrow> error + bool \<times> nat" where
  "hsn_check h itype =
     and_then (hsn_digits_of h)
       (\<lambda>hsn_digits. Inr (length hsn_digits < recommended_of itype, recommended_of itype))"

subsection \<open>The loop over the items\<close>

record line =
  description :: json
  qty :: decimal
  rate :: decimal
  tax_percent :: decimal
  taxable_value :: decimal
  tax_value :: decimal
  cgst :: decimal
  sgst :: decimal
  igst :: decimal
  hsn :: json
  hsn_warning :: bool
  hsn_recommended :: nat

record totals =
  total_taxable :: decimal
  total_tax :: decimal
  total_cgst :: decimal
  total_sgst :: decimal
  total_igst :: decimal

definition zero_totals :: totals where
  "zero_totals =
     \<lparr>total_taxable = zero2, total_tax = zero2, total_cgst = zero2,
      total_sgst = zero2, total_igst = zero2\<rparr>"

text \<open>
  The additions inside the branch on the tax mode: \<^verbatim>\<open>total_cgst += cgst\<close> and
  \<^verbatim>\<open>total_sgst += sgst\<close>, or \<^verbatim>\<open>total_igst += igst\<close>.
\<close>

definition add_split :: "tax_mode \<Rightarrow> totals \<Rightarrow> decimal \<Rightarrow> decimal \<Rightarrow> decimal \<Rightarrow> error + totals" where
  "add_split mode tot c s i =
     (case mode of
        INTRA \<Rightarrow>
          and_then (dec_add (total_cgst tot) c)
            (\<lambda>tc. and_then (dec_add (total_sgst tot) s)
               (\<lambda>ts. Inr (tot\<lparr>total_cgst := tc, total_sgst := ts\<rparr>)))
      | INTER \<Rightarrow>
          and_then (dec_add (total_igst tot) i) (\<lambda>ti. Inr (tot\<lparr>total_igst := ti\<rparr>)))"

text \<open>One pass of the body of \<^verbatim>\<open>for it in items\<close>, in the order of the source.\<close>

definition loop_body ::
  "invoice_type \<Rightarrow> tax_mode \<Rightarrow> line list \<times> totals \<Rightarrow> json \<Rightarrow> error + line list \<times> totals" where
  "loop_body itype mode acc it =
     and_then (obj_get it ''description'' JNull) (\<lambda>d.
     and_then (item_decimal it ''qty'' 1) (\<lambda>q.
     and_then (item_decimal it ''rate'' 0) (\<lambda>r.
     and_then (item_decimal it ''tax_rate'' 0) (\<lambda>tp.
     and_then (obj_get it ''hsn'' JNull) (\<lambda>h.
     and_then (taxable_of q r) (\<lambda>tv.
     and_then (tax_of tv tp) (\<lambda>tx.
     and_then (gst_split mode tx) (\<lambda>(c, s, i).
     and_then (add_split mode (snd acc) c s i) (\<lambda>tot1.
     and_then (dec_add (total_taxable tot1) tv) (\<lambda>tt.
     and_then (dec_add (total_tax tot1) tx) (\<lambda>tt2.
     and_then (hsn_check (py_or h (JStr [])) itype) (\<lambda>(warn, recommended).
       Inr (fst acc @
              [\<lparr>description = py_or d (JStr []), qty = q, rate = r, tax_percent = tp,
                taxable_value = tv, tax_value = tx, cgst = c, sgst = s, igst = i,
                hsn = py_or h (JStr []),
                hsn_warning = warn, hsn_recommended = recommended\<rparr>],
            tot1\<lparr>total_taxable := tt, total_tax := tt2\<rparr>)))))))))))))"

fun process_items ::
  "invoice_type \<Rightarrow> tax_mode \<Rightarrow> json list \<Rightarrow> line list \<times> totals \<Rightarrow> error + line list \<times> totals" where
  "process_items itype mode [] acc = Inr acc"
| "process_items itype mode (it # its) acc =
     and_then (loop_body itype mode acc it) (process_items itype mode its)"

subsection \<open>The view\<close>

text \<open>
  \<^verbatim>\<open>items = invoice_data.get("invoice_items") or invoice_data.get("items") or []\<close>
\<close>

definition items_of :: "json \<Rightarrow> error + json" where
  "items_of invoice_data =
     and_then (obj_get invoice_data ''invoice_items'' JNull) (\<lambda>a.
       if truthy a then Inr a
       else and_then (obj_get invoice_data ''items'' JNull) (\<lambda>b. Inr (py_or b (JList []))))"

text \<open>\<^verbatim>\<open>grand_total = (total_taxable + total_tax).quantize(Decimal("0.01"))\<close>\<close>

definition grand_total_of :: "totals \<Rightarrow> error + decimal" where
  "grand_total_of tot =
     and_then (dec_add (total_taxable tot) (total_tax tot))
       (\<lambda>g. dec_quantize ROUND_HALF_EVEN g cent)"

record view =
  breakdown :: "line list"
  view_totals :: totals
  grand_total :: decimal
  seller_gst :: string
  buyer_gst :: string
  invoice_kind :: invoice_type
  mode_of_tax :: tax_mode

text \<open>
  The part of the view after the two database reads and \<^verbatim>\<open>json.loads\<close>.  The
  arguments are \<^verbatim>\<open>user_profile.business_gst\<close>, \<^verbatim>\<open>invoice_obj.invoice_customer\<close>
  and the value that \<^verbatim>\<open>json.loads\<close> returned, \<open>None\<close> when it raised (the
  \<^verbatim>\<open>except\<close> branch then takes the empty dictionary).  The total in words comes from
  the library num2words inside a \<^verbatim>\<open>try\<close> that catches everything; it is left out.
\<close>

definition invoice_data_of :: "json option \<Rightarrow> json" where
  "invoice_data_of loaded = (case loaded of None \<Rightarrow> JDict [] | Some v \<Rightarrow> v)"

definition invoice_viewer :: "string option \<Rightarrow> customer option \<Rightarrow> json option \<Rightarrow> error + view" where
  "invoice_viewer business_gst cust loaded =
     (let invoice_data = invoice_data_of loaded;
          seller = seller_gst_of business_gst
      in
        and_then (buyer_gst_of cust invoice_data) (\<lambda>buyer.
        and_then (items_of invoice_data) (\<lambda>items.
        and_then (py_iter items) (\<lambda>its.
        and_then (process_items (invoice_type_of buyer) (tax_mode_of seller buyer) its
                    ([], zero_totals)) (\<lambda>(bd, tot).
        and_then (grand_total_of tot) (\<lambda>g.
          Inr \<lparr>breakdown = bd, view_totals = tot, grand_total = g, seller_gst = seller,
               buyer_gst = buyer, invoice_kind = invoice_type_of buyer,
               mode_of_tax = tax_mode_of seller buyer\<rparr>))))))"

subsection \<open>The wording of the specification\<close>

text \<open>
  The specification resolves a state code from two leading ASCII digits and counts the
  ASCII digits of an HSN code.  These definitions follow its words; the theorems below
  compare them with what the code computes.
\<close>

definition spec_state_of :: "string \<Rightarrow> string option" where
  "spec_state_of gstin =
     (if length gstin \<ge> 2 \<and> list_all ascii_digit (take 2 gstin)
      then Some (take 2 gstin) else None)"

definition spec_tax_mode :: "string \<Rightarrow> string \<Rightarrow> tax_mode" where
  "spec_tax_mode s b =
     (if spec_state_of s \<noteq> None \<and> spec_state_of b \<noteq> None \<and> spec_state_of s = spec_state_of b
      then INTRA else INTER)"

definition spec_hsn_warning :: "string \<Rightarrow> invoice_type \<Rightarrow> bool" where
  "spec_hsn_warning h itype =
     (length (filter ascii_digit h) < (case itype of B2B \<Rightarrow> 6 | B2C \<Rightarrow> 4))"

subsection \<open>The value of a decimal and rounding, as the specification means them\<close>

text \<open>
  The magnitude and the value of a finite decimal as rational numbers, and rounding to
  \<open>n\<close> decimals with ties away from zero, which is what the specification calls
  \<^verbatim>\<open>round_half_up\<close>.
\<close>

definition mag :: "nat \<Rightarrow> int \<Rightarrow> rat" where
  "mag c e = of_nat c * 10 powi e"

definition dec_val :: "decimal \<Rightarrow> rat" where
  "dec_val d =
     (case d of Dec s c e \<Rightarrow> (if s then - 1 else 1) * of_nat c * 10 powi e | _ \<Rightarrow> 0)"

definition round_half_up :: "rat \<Rightarrow> nat \<Rightarrow> rat" where
  "round_half_up x n = sgn x * of_int \<lfloor>\<bar>x\<bar> * 10 ^ n + 1 / 2\<rfloor> / 10 ^ n"

text \<open>
  The number of cents that the code gives to each half of a tax of \<open>n\<close> cents: half
  of an even amount; for an odd amount the half rounded up, unless five times the amount
  needs 29 digits, in which case the context has rounded the quotient half-even before
  \<^verbatim>\<open>quantize\<close> sees it.
\<close>

definition half_cents :: "nat \<Rightarrow> nat" where
  "half_cents n =
     (if even n then n div 2
      else if 5 * n < 10 ^ 28 then n div 2 + 1
      else if odd (n div 2) then n div 2 + 1 else n div 2)"

subsection \<open>Amounts of two decimals and the running totals\<close>

text \<open>
  An amount is a finite decimal of exponent \<open>- 2\<close> whose coefficient fits the
  context; \<open>cents\<close> is its signed coefficient.  \<open>sum_dec\<close> is the chain of
  \<^verbatim>\<open>total += x\<close> over a list; \<open>line_ok\<close> and \<open>totals_step\<close> say how one pass of
  the loop produced a line and moved the totals.
\<close>

definition cents :: "decimal \<Rightarrow> int" where
  "cents d = (case d of Dec s c e \<Rightarrow> signed s c | _ \<Rightarrow> 0)"

definition is_money :: "decimal \<Rightarrow> bool" where
  "is_money d = (case d of Dec s c e \<Rightarrow> e = - 2 \<and> c < 10 ^ 28 | _ \<Rightarrow> False)"

fun sum_dec :: "decimal \<Rightarrow> decimal list \<Rightarrow> error + decimal" where
  "sum_dec a [] = Inr a"
| "sum_dec a (x # xs) = and_then (dec_add a x) (\<lambda>b. sum_dec b xs)"


definition line_ok :: "tax_mode \<Rightarrow> line \<Rightarrow> bool" where
  "line_ok mode l =
     ((\<exists>x. dec_quantize ROUND_HALF_UP x cent = Inr (taxable_value l))
      \<and> (\<exists>x. dec_quantize ROUND_HALF_UP x cent = Inr (tax_value l))
      \<and> gst_split mode (tax_value l) = Inr (cgst l, sgst l, igst l))"

definition totals_step :: "tax_mode \<Rightarrow> totals \<Rightarrow> line \<Rightarrow> totals \<Rightarrow> bool" where
  "totals_step mode tot l tot' =
     (dec_add (total_taxable tot) (taxable_value l) = Inr (total_taxable tot')
      \<and> dec_add (total_tax tot) (tax_value l) = Inr (total_tax tot')
      \<and> (case mode of
            INTRA \<Rightarrow> dec_add (total_cgst tot) (cgst l) = Inr (total_cgst tot')
                     \<and> dec_add (total_sgst tot) (sgst l) = Inr (total_sgst tot')
                     \<and> total_igst tot' = total_igst tot
          | INTER \<Rightarrow> dec_add (total_igst tot) (igst l) = Inr (total_igst tot')
                     \<and> total_cgst tot' = total_cgst tot
                     \<and> total_sgst tot' = total_sgst tot))"


section \<open>Properties\<close>

lemmas ctx_defs = prec_def Emax_def Emin_def Etiny_def Etop_def

subsection \<open>Classification\<close>

text \<open>
  C3, as the code has it.  The tax mode is INTRA exactly when both GSTINs (as they are
  after stripping) have at least two characters, the first two characters of each are
  digits in the sense of \<^verbatim>\<open>str.isdigit\<close>, and the two prefixes are equal; in every
  other case it is INTER.
\<close>

theorem tax_mode_intra_iff:
  "tax_mode_of s b =
     (if length s \<ge> 2 \<and> length b \<ge> 2 \<and> list_all py_isdigit (take 2 s)
         \<and> list_all py_isdigit (take 2 b) \<and> take 2 s = take 2 b
      then INTRA else INTER)"
  by (auto simp add: tax_mode_of_def gst_state_def str_isdigit_def)

text \<open>
  With ASCII digits in place of \<^verbatim>\<open>str.isdigit\<close> the statement fails: two GSTINs
  that start with two superscript twos are intra-state for the code.
\<close>

theorem tax_mode_ascii_counterexample:
  "tax_mode_of [CHR 0xB2, CHR 0xB2, CHR ''A''] [CHR 0xB2, CHR 0xB2, CHR ''B''] = INTRA
   \<and> spec_tax_mode [CHR 0xB2, CHR 0xB2, CHR ''A''] [CHR 0xB2, CHR 0xB2, CHR ''B''] = INTER"
  by (simp add: tax_mode_of_def gst_state_def str_isdigit_def py_isdigit_def ascii_digit_def
      spec_tax_mode_def spec_state_of_def)



subsection \<open>The HSN digit check\<close>

lemma hsn_join_chars: "hsn_join (map (\<lambda>c. JStr [c]) s) = Inr (filter py_isdigit s)"
  by (induction s) (simp_all add: and_then_def str_isdigit_def)

text \<open>
  C7, as the code has it.  For an HSN code that is a string, the recommended count is 6
  for B2B and 4 for B2C, and the warning is raised exactly when the number of characters
  of the code that are digits in the sense of \<^verbatim>\<open>str.isdigit\<close> is below the
  recommended count.
\<close>

theorem hsn_warning_isdigit:
  "hsn_check (py_or (JStr s) (JStr [])) itype =
     Inr (length (filter py_isdigit s) < recommended_of itype, recommended_of itype)
   \<and> recommended_of B2B = 6 \<and> recommended_of B2C = 4"
  by (simp add: hsn_check_def hsn_digits_of_def py_or_def and_then_def hsn_join_chars
      recommended_of_def)

text \<open>
  With the ASCII digits alone the statement fails: a code of four superscript twos has
  no ASCII digit, and the code raises no warning for it on a B2C invoice.
\<close>

theorem hsn_warning_ascii_counterexample:
  "hsn_check (py_or (JStr [CHR 0xB2, CHR 0xB2, CHR 0xB2, CHR 0xB2]) (JStr [])) B2C = Inr (False, 4)
   \<and> spec_hsn_warning [CHR 0xB2, CHR 0xB2, CHR 0xB2, CHR 0xB2] B2C = True"
  by (simp add: hsn_check_def hsn_digits_of_def py_or_def and_then_def recommended_of_def
      str_isdigit_def py_isdigit_def ascii_digit_def spec_hsn_warning_def)

subsection \<open>Empty invoices and inputs that raise\<close>





text \<open>
  C2 at its failing input.  With no linked customer and \<^verbatim>\<open>null\<close> stored under
  \<^verbatim>\<open>customer_gst\<close>, the call of \<^verbatim>\<open>strip\<close> on \<^verbatim>\<open>None\<close> raises AttributeError,
  whatever the seller's GSTIN is.
\<close>

theorem null_customer_gst_raises:
  "invoice_viewer bg None (Some (JDict [(''customer_gst'', JNull)])) = Inl AttributeError"
  by (simp add: invoice_viewer_def buyer_gst_of_def linked_gst_def obj_get_def dict_get_def
      and_then_def invoice_data_of_def)

subsection \<open>Digits, rounding and the context\<close>

lemma ndigits_pos: "0 < ndigits n"
  by (subst ndigits.simps) simp

lemma ndigits_less: "n < 10 ^ ndigits n"
proof (induction n rule: ndigits.induct)
  case (1 n)
  show ?case
  proof (cases "n < 10")
    case True
    then show ?thesis by (subst ndigits.simps) simp
  next
    case False
    with 1 have "n div 10 < 10 ^ ndigits (n div 10)" by simp
    then have "n < 10 * 10 ^ ndigits (n div 10)" by simp
    with False show ?thesis by (subst ndigits.simps) simp
  qed
qed

lemma ndigits_ge: "n \<noteq> 0 \<Longrightarrow> 10 ^ (ndigits n - 1) \<le> n"
proof (induction n rule: ndigits.induct)
  case (1 n)
  show ?case
  proof (cases "n < 10")
    case True
    with 1 show ?thesis by (subst ndigits.simps) simp
  next
    case False
    then have nz: "n div 10 \<noteq> 0" by simp
    with 1 False have "10 ^ (ndigits (n div 10) - 1) \<le> n div 10" by simp
    then have "10 * 10 ^ (ndigits (n div 10) - 1) \<le> n" by simp
    moreover have "ndigits n = Suc (ndigits (n div 10))" using False by (subst ndigits.simps) simp
    moreover have "0 < ndigits (n div 10)" by (rule ndigits_pos)
    ultimately show ?thesis by (cases "ndigits (n div 10)") simp_all
  qed
qed

lemma ndigits_le_iff: "0 < k \<Longrightarrow> ndigits n \<le> k \<longleftrightarrow> n < 10 ^ k"
proof
  assume "ndigits n \<le> k"
  then have "(10::nat) ^ ndigits n \<le> 10 ^ k" by (intro power_increasing) simp_all
  with ndigits_less [of n] show "n < 10 ^ k" by (rule less_le_trans)
next
  assume k: "0 < k" and lt: "n < 10 ^ k"
  show "ndigits n \<le> k"
  proof (cases "n = 0")
    case True
    then show ?thesis using k by (subst ndigits.simps) simp
  next
    case False
    from ndigits_ge [OF False] lt have "(10::nat) ^ (ndigits n - 1) < 10 ^ k"
      by (rule le_less_trans)
    then have "ndigits n - 1 < k" by simp
    then show ?thesis by simp
  qed
qed

lemma ndigits_mono: "m \<le> n \<Longrightarrow> ndigits m \<le> ndigits n"
  using ndigits_le_iff [of "ndigits n" m] ndigits_less [of n] ndigits_pos [of n] by simp

lemma floor_half_cases:
  fixes x :: rat
  assumes "0 \<le> x" "x < 1"
  shows "\<lfloor>of_nat q + (x + 1 / 2)\<rfloor> = (if 1 / 2 \<le> x then int q + 1 else int q)"
  using assms by (auto intro!: floor_unique)

lemma round_half_up_floor:
  "int (round_digits ROUND_HALF_UP c k) = \<lfloor>(of_nat c :: rat) / 10 ^ k + 1 / 2\<rfloor>"
proof -
  define q r where "q = c div 10 ^ k" and "r = c mod 10 ^ k"
  define x :: rat where "x = of_nat r / 10 ^ k"
  have c: "c = q * 10 ^ k + r" unfolding q_def r_def by (rule div_mult_mod_eq [symmetric])
  have r: "r < 10 ^ k" by (simp add: r_def)
  have eq: "(of_nat c :: rat) / 10 ^ k + 1 / 2 = of_nat q + (x + 1 / 2)"
    by (simp add: c x_def field_simps)
  have x0: "0 \<le> x" by (simp add: x_def)
  have x1: "x < 1" using r by (simp add: x_def divide_less_eq)
  have half: "1 / 2 \<le> x \<longleftrightarrow> 10 ^ k \<le> 2 * r"
  proof -
    have "1 / 2 \<le> x \<longleftrightarrow> (of_nat (10 ^ k) :: rat) \<le> of_nat (2 * r)"
      by (simp add: x_def field_simps)
    also have "\<dots> \<longleftrightarrow> 10 ^ k \<le> 2 * r" by (simp only: of_nat_le_iff)
    finally show ?thesis .
  qed
  show ?thesis
    unfolding eq floor_half_cases [OF x0 x1] half
    by (simp add: round_digits_def q_def r_def Let_def)
qed


lemma dec_val_Dec: "dec_val (Dec s c e) = (if s then - 1 else 1) * mag c e"
  by (simp add: dec_val_def mag_def)

lemma mag_nonneg: "0 \<le> mag c e"
  by (simp add: mag_def)

lemma mag_zero [simp]: "mag 0 e = 0"
  by (simp add: mag_def)

lemma mag_pos: "c \<noteq> 0 \<Longrightarrow> 0 < mag c e"
  by (simp add: mag_def)

lemma mag_shift: "mag (c * 10 ^ k) e = mag c (e + int k)"
  by (simp add: mag_def power_int_add)

lemma mag_cents: "mag c (- 2) = of_nat c / 100"
  by (simp add: mag_def)

lemma fix_id:
  assumes "ndigits c \<le> 28" "Etiny \<le> e" "e \<le> Etop"
  shows "dec_fix s c e = Inr (Dec s c e)"
proof -
  have a: "\<not> e < max (int (ndigits c) + e - int prec) Etiny"
    using assms by (simp add: prec_def)
  have b: "\<not> int (ndigits c) + e - int prec > Etop"
    using assms by (simp add: prec_def)
  have c: "min (max e Etiny) Emax = e"
    using assms by (simp add: ctx_defs)
  show ?thesis
    unfolding dec_fix_def Let_def using a b c by simp
qed

lemma fix_zero: "\<exists>e'. dec_fix s 0 e = Inr (Dec s 0 e')"
  by (simp add: dec_fix_def)

lemma mag_digits:
  assumes "c \<noteq> 0" "mag c e < 10 powi b"
  shows "int (ndigits c) + e \<le> b"
proof -
  have "(10::rat) powi (int (ndigits c - 1)) \<le> of_nat c"
    using ndigits_ge [OF assms(1)] 
    by (metis of_nat_le_iff of_nat_numeral of_nat_power power_int_of_nat)
  then have "(10::rat) powi (int (ndigits c - 1)) * 10 powi e \<le> mag c e"
    by (simp add: mag_def)
  then have "(10::rat) powi (int (ndigits c - 1) + e) \<le> mag c e"
    by (simp add: power_int_add)
  with assms(2) have lt: "(10::rat) powi (int (ndigits c - 1) + e) < 10 powi b" by simp
  have "int (ndigits c - 1) + e < b"
  proof (rule ccontr)
    assume "\<not> int (ndigits c - 1) + e < b"
    then have "(10::rat) powi b \<le> 10 powi (int (ndigits c - 1) + e)"
      by (intro power_int_increasing) simp_all
    with lt show False by simp
  qed
  with ndigits_pos [of c] show ?thesis by simp
qed

lemma rescale_half_up_floor:
  "int (rescale ROUND_HALF_UP c e q) = \<lfloor>mag c (e - q) + 1 / 2\<rfloor>"
proof (cases "q \<le> e")
  case True
  then have "mag c (e - q) = of_nat (c * 10 ^ nat (e - q))"
    by (simp add: mag_def power_int_nonneg_exp)
  then have "\<lfloor>mag c (e - q) + 1 / 2\<rfloor> = int (c * 10 ^ nat (e - q))"
    by (simp only:) (rule floor_unique; simp)
  with True show ?thesis by (simp add: rescale_def)
next
  case False
  then have "e - q = - int (nat (q - e))" by simp
  then have "mag c (e - q) = of_nat c / 10 ^ nat (q - e)"
    by (simp only: mag_def power_int_minus_divide power_int_of_nat) simp
  with False show ?thesis by (simp add: rescale_def round_half_up_floor)
qed


lemma ndigits_0 [simp]: "ndigits 0 = 1"
  by (subst ndigits.simps) simp

lemma round_digits_zero [simp]: "round_digits rm 0 k = 0"
  by (cases rm) (simp_all add: round_digits_def)

lemma rescale_zero [simp]: "rescale rm 0 e q = 0"
  by (simp add: rescale_def)

lemma rescale_same [simp]: "rescale rm c e e = c"
  by (simp add: rescale_def)

lemma quantize_cent:
  assumes "c \<noteq> 0 \<Longrightarrow> int (ndigits c) + e \<le> 26"
    and "rescale rm c e (- 2) < 10 ^ 28"
  shows "dec_quantize rm (Dec s c e) cent = Inr (Dec s (rescale rm c e (- 2)) (- 2))"
proof (cases "c = 0")
  case True
  then show ?thesis
    by (simp add: cent_def ctx_defs fix_id)
next
  case False
  have nd: "ndigits (rescale rm c e (- 2)) \<le> 28"
    using assms(2) by (simp add: ndigits_le_iff)
  have fx: "dec_fix s (rescale rm c e (- 2)) (- 2) = Inr (Dec s (rescale rm c e (- 2)) (- 2))"
    using nd by (intro fix_id) (simp_all add: ctx_defs)
  show ?thesis
    using False assms(1) nd fx by (simp add: cent_def ctx_defs Let_def)
qed

lemma quantize_same:
  assumes "ndigits c \<le> 28"
  shows "dec_quantize rm (Dec s c (- 2)) cent = Inr (Dec s c (- 2))"
  using quantize_cent [of c "- 2" rm s] assms by (simp add: ndigits_le_iff)

lemma quantize_shape:
  assumes "dec_quantize rm x cent = Inr z"
  shows "z = QNaN \<or> (\<exists>s m. z = Dec s m (- 2) \<and> ndigits m \<le> 28)"
proof (cases x)
  case (Dec s c e)
  show ?thesis
  proof (cases "c = 0")
    case True
    with assms Dec show ?thesis
      by (auto simp add: cent_def ctx_defs fix_id)
  next
    case False
    let ?c = "rescale rm c e (- 2)"
    from assms Dec False have nd: "ndigits ?c \<le> 28"
      by (simp add: cent_def ctx_defs Let_def split: if_splits)
    then have "dec_fix s ?c (- 2) = Inr (Dec s ?c (- 2))"
      by (intro fix_id) (simp_all add: ctx_defs)
    with assms Dec False nd show ?thesis
      by (auto simp add: cent_def ctx_defs Let_def split: if_splits)
  qed
qed (use assms in \<open>simp_all add: cent_def\<close>)

lemma floor_half_bound:
  fixes x :: rat
  assumes "0 \<le> x" "x < of_nat n"
  shows "nat \<lfloor>x + 1 / 2\<rfloor> \<le> n"
proof -
  have "\<lfloor>x + 1 / 2\<rfloor> \<le> int n"
    using assms by (simp add: floor_le_iff)
  then show ?thesis by simp
qed

lemma quantize_half_up:
  assumes "mag c e < 10 ^ 25"
  shows "dec_quantize ROUND_HALF_UP (Dec s c e) cent =
           Inr (Dec s (nat \<lfloor>mag c e * 100 + 1 / 2\<rfloor>) (- 2))"
proof -
  have m: "mag c (e + 2) = mag c e * 100"
    by (simp add: mag_def power_int_add)
  have r: "int (rescale ROUND_HALF_UP c e (- 2)) = \<lfloor>mag c e * 100 + 1 / 2\<rfloor>"
    using rescale_half_up_floor [of c e "- 2"] by (simp add: m)
  then have r': "rescale ROUND_HALF_UP c e (- 2) = nat \<lfloor>mag c e * 100 + 1 / 2\<rfloor>"
    by linarith
  have "mag c e * 100 < of_nat (10 ^ 27)"
    using assms by simp
  then have "nat \<lfloor>mag c e * 100 + 1 / 2\<rfloor> \<le> 10 ^ 27"
    by (intro floor_half_bound) (simp_all add: mag_nonneg)
  then have b: "rescale ROUND_HALF_UP c e (- 2) < 10 ^ 28"
    by (simp add: r')
  have d: "c \<noteq> 0 \<Longrightarrow> int (ndigits c) + e \<le> 26"
    using mag_digits [of c e 25] assms by simp
  show ?thesis
    using quantize_cent [OF d b, of s] by (simp add: r')
qed

lemma round_half_up_val:
  "dec_val (Dec s (nat \<lfloor>mag c e * 100 + 1 / 2\<rfloor>) (- 2)) = round_half_up (dec_val (Dec s c e)) 2"
proof (cases "c = 0")
  case True
  then show ?thesis by (simp add: dec_val_Dec round_half_up_def)
next
  case False
  then have p: "0 < mag c e" by (rule mag_pos)
  then have f: "0 \<le> \<lfloor>mag c e * 100 + 1 / 2\<rfloor>" by simp
  show ?thesis
    using p f by (simp add: dec_val_Dec round_half_up_def mag_cents abs_mult)
qed


lemma mag_mult: "mag (c * d) (e + f) = mag c e * mag d f"
  by (simp add: mag_def power_int_add)

lemma mul_exact:
  assumes "ndigits (c * d) \<le> 28" "Etiny \<le> e + f" "c * d \<noteq> 0 \<Longrightarrow> e + f \<le> Etop"
  shows "\<exists>e'. dec_mul (Dec s c e) (Dec t d f) = Inr (Dec (s \<noteq> t) (c * d) e')
           \<and> mag (c * d) e' = mag (c * d) (e + f) \<and> (c * d \<noteq> 0 \<longrightarrow> e' = e + f)"
proof (cases "c * d = 0")
  case True
  then show ?thesis using fix_zero [of "s \<noteq> t" "e + f"] by auto
next
  case False
  with assms have "dec_fix (s \<noteq> t) (c * d) (e + f) = Inr (Dec (s \<noteq> t) (c * d) (e + f))"
    by (intro fix_id) simp_all
  then show ?thesis by simp
qed

lemma dec_val_mult:
  "dec_val (Dec s c e) * dec_val (Dec t d f) = (if s \<noteq> t then - 1 else 1) * mag (c * d) (e + f)"
  by (simp add: dec_val_Dec mag_mult)

lemma abs_dec_val: "\<bar>dec_val (Dec s c e)\<bar> = mag c e"
  using mag_nonneg [of c e] by (simp add: dec_val_Dec)

lemma abs_dec_val_mult: "\<bar>dec_val (Dec s c e) * dec_val (Dec t d f)\<bar> = mag (c * d) (e + f)"
  by (simp add: abs_mult abs_dec_val mag_mult)

lemma taxable_of_value:
  assumes "ndigits (c * d) \<le> 28" and "Etiny \<le> e + f"
    and "\<bar>dec_val (Dec s c e) * dec_val (Dec t d f)\<bar> < 10 ^ 25"
  shows "\<exists>m. taxable_of (Dec s c e) (Dec t d f) = Inr (Dec (s \<noteq> t) m (- 2))
           \<and> dec_val (Dec (s \<noteq> t) m (- 2))
               = round_half_up (dec_val (Dec s c e) * dec_val (Dec t d f)) 2"
proof -
  have b: "mag (c * d) (e + f) < 10 ^ 25"
    using assms(3) by (simp only: abs_dec_val_mult)
  have top: "c * d \<noteq> 0 \<Longrightarrow> e + f \<le> Etop"
    using mag_digits [of "c * d" "e + f" 25] b ndigits_pos [of "c * d"] by (simp add: ctx_defs)
  from mul_exact [OF assms(1,2) top, of s t]
  obtain e' where m: "dec_mul (Dec s c e) (Dec t d f) = Inr (Dec (s \<noteq> t) (c * d) e')"
    and v: "mag (c * d) e' = mag (c * d) (e + f)" by blast
  from b v have "mag (c * d) e' < 10 ^ 25" by simp
  from quantize_half_up [OF this, of "s \<noteq> t"] m
  have "taxable_of (Dec s c e) (Dec t d f)
          = Inr (Dec (s \<noteq> t) (nat \<lfloor>mag (c * d) e' * 100 + 1 / 2\<rfloor>) (- 2))"
    by (simp add: taxable_of_def and_then_def)
  moreover have "dec_val (Dec (s \<noteq> t) (nat \<lfloor>mag (c * d) e' * 100 + 1 / 2\<rfloor>) (- 2))
      = round_half_up (dec_val (Dec s c e) * dec_val (Dec t d f)) 2"
  proof -
    have "dec_val (Dec (s \<noteq> t) (c * d) e') = dec_val (Dec s c e) * dec_val (Dec t d f)"
      unfolding dec_val_mult by (simp add: dec_val_Dec v)
    then show ?thesis by (simp only: round_half_up_val)
  qed
  ultimately show ?thesis by blast
qed

lemma strip_zeros_mult:
  "e + int j \<le> i \<Longrightarrow> strip_zeros (a * 10 ^ j) e i = strip_zeros a (e + int j) i"
proof (induction j arbitrary: e)
  case 0
  then show ?case by simp
next
  case (Suc j)
  then have "strip_zeros (a * 10 ^ Suc j) e i = strip_zeros (a * 10 ^ j) (e + 1) i"
    by (subst strip_zeros.simps) simp
  also have "\<dots> = strip_zeros a (e + 1 + int j) i"
    using Suc.prems by (intro Suc.IH) simp
  finally show ?case by (simp add: add.assoc)
qed

lemma strip_zeros_val:
  "strip_zeros c e i = (c', e') \<Longrightarrow> c' \<le> c \<and> e \<le> e' \<and> e' \<le> max e i \<and> mag c' e' = mag c e"
proof (induction c e i rule: strip_zeros.induct)
  case (1 c e ideal)
  show ?case
  proof (cases "e < ideal \<and> c mod 10 = 0")
    case True
    with "1.prems" have r: "strip_zeros (c div 10) (e + 1) ideal = (c', e')"
      by (subst (asm) strip_zeros.simps) simp
    from "1.IH" [OF True r] have ih: "c' \<le> c div 10" "e + 1 \<le> e'" "e' \<le> max (e + 1) ideal"
      "mag c' e' = mag (c div 10) (e + 1)" by simp_all
    from True have "c = (c div 10) * 10 ^ 1" by auto
    then have "mag c e = mag (c div 10) (e + 1)"
      using mag_shift [of "c div 10" 1 e] by simp
    with ih True show ?thesis by auto
  next
    case False
    with "1.prems" have "c' = c" "e' = e"
      by (subst (asm) strip_zeros.simps; simp)+
    then show ?thesis by simp
  qed
qed

lemma ndigits_100: "ndigits 100 = 3"
  by (simp add: ndigits.simps)

lemma ndigits_2: "ndigits 2 = 1"
  by (simp add: ndigits.simps)


lemma div_hundred_strip:
  assumes "ndigits c \<le> 28" and "c \<noteq> 0" and "Etiny \<le> e - 2" and "e \<le> Etop"
  shows "dec_div (Dec s c e) hundred =
           (case strip_zeros c (e - 2) e of (c', e') \<Rightarrow> Inr (Dec s c' e'))"
proof -
  define sh where "sh = 32 - ndigits c"
  have sh: "int (ndigits 100) - int (ndigits c) + int prec + 1 = int sh" "4 \<le> sh"
    using assms(1) by (simp_all add: sh_def ndigits_100 prec_def)
  have p: "(10::nat) ^ sh = 10 ^ (sh - 2) * 100"
  proof -
    have "sh - 2 + 2 = sh" using sh(2) by simp
    then have "(10::nat) ^ sh = 10 ^ (sh - 2 + 2)" by (rule arg_cong [symmetric])
    then show ?thesis by (simp only: power_add) simp
  qed
  have q: "c * 10 ^ sh div 100 = c * 10 ^ (sh - 2)" "c * 10 ^ sh mod 100 = 0"
    by (simp_all add: p)
  have st: "strip_zeros (c * 10 ^ (sh - 2)) (e - int sh) e = strip_zeros c (e - 2) e"
    using sh(2) strip_zeros_mult [of "e - int sh" "sh - 2" e c] by simp
  obtain c' e' where ce: "strip_zeros c (e - 2) e = (c', e')" by (cases "strip_zeros c (e - 2) e")
  from strip_zeros_val [OF ce] have v: "c' \<le> c" "e - 2 \<le> e'" "e' \<le> e"
    by simp_all
  have "ndigits c' \<le> 28" using ndigits_mono [OF v(1)] assms(1) by simp
  then have fx: "dec_fix s c' e' = Inr (Dec s c' e')"
    using assms(3,4) v by (intro fix_id) simp_all
  have "dec_div (Dec s c e) hundred = Inr (Dec s c' e')"
    using assms(2) by (simp add: hundred_def sh(1) Let_def q st ce fx)
  then show ?thesis by (simp add: ce)
qed

lemma div_hundred:
  assumes "ndigits c \<le> 28" and "c \<noteq> 0 \<Longrightarrow> Etiny \<le> e - 2 \<and> e \<le> Etop"
  shows "\<exists>c' e'. dec_div (Dec s c e) hundred = Inr (Dec s c' e') \<and> mag c' e' = mag c e / 100"
proof (cases "c = 0")
  case True
  then show ?thesis using fix_zero [of s e] by (auto simp add: hundred_def)
next
  case False
  obtain c' e' where ce: "strip_zeros c (e - 2) e = (c', e')" by (cases "strip_zeros c (e - 2) e")
  from strip_zeros_val [OF ce] have v: "mag c' e' = mag c (e - 2)" by simp
  from assms(2) [OF False] have "Etiny \<le> e - 2" "e \<le> Etop" by simp_all
  from div_hundred_strip [OF assms(1) False this, of s]
  have "dec_div (Dec s c e) hundred = Inr (Dec s c' e')" by (simp add: ce)
  moreover have "mag c (e - 2) = mag c e / 100"
    by (simp add: mag_def power_int_diff)
  ultimately show ?thesis using v by auto
qed

lemma tax_of_value:
  assumes "ndigits (m * p) \<le> 28" and "Etiny \<le> g - 4"
    and "\<bar>dec_val (Dec sv m (- 2)) * dec_val (Dec u p g) / 100\<bar> < 10 ^ 25"
  shows "\<exists>n. tax_of (Dec sv m (- 2)) (Dec u p g) = Inr (Dec (sv \<noteq> u) n (- 2))
           \<and> dec_val (Dec (sv \<noteq> u) n (- 2))
               = round_half_up (dec_val (Dec sv m (- 2)) * dec_val (Dec u p g) / 100) 2"
proof -
  have b: "mag (m * p) (- 2 + g) / 100 < 10 ^ 25"
    using assms(3) by (simp only: abs_divide abs_dec_val_mult)
  then have "mag (m * p) (- 2 + g) < 10 powi 27" by simp
  from mag_digits [OF _ this] ndigits_pos [of "m * p"]
  have top: "m * p \<noteq> 0 \<Longrightarrow> - 2 + g \<le> Etop"
    by (simp add: ctx_defs)
  have tiny: "Etiny \<le> - 2 + g" using assms(2) by simp
  from mul_exact [OF assms(1) tiny top, of sv u]
  obtain e1 where mu: "dec_mul (Dec sv m (- 2)) (Dec u p g) = Inr (Dec (sv \<noteq> u) (m * p) e1)"
    and v1: "mag (m * p) e1 = mag (m * p) (- 2 + g)"
    and e1: "m * p \<noteq> 0 \<longrightarrow> e1 = - 2 + g" by blast
  have "m * p \<noteq> 0 \<Longrightarrow> Etiny \<le> e1 - 2 \<and> e1 \<le> Etop"
    using e1 top assms(2) by simp
  from div_hundred [OF assms(1) this, of "sv \<noteq> u"]
  obtain c' e' where dv: "dec_div (Dec (sv \<noteq> u) (m * p) e1) hundred = Inr (Dec (sv \<noteq> u) c' e')"
    and v2: "mag c' e' = mag (m * p) e1 / 100" by blast
  have lt: "mag c' e' < 10 ^ 25" using b v1 v2 by simp
  from quantize_half_up [OF lt, of "sv \<noteq> u"] mu dv
  have "tax_of (Dec sv m (- 2)) (Dec u p g)
          = Inr (Dec (sv \<noteq> u) (nat \<lfloor>mag c' e' * 100 + 1 / 2\<rfloor>) (- 2))"
    by (simp add: tax_of_def and_then_def)
  moreover have "dec_val (Dec (sv \<noteq> u) (nat \<lfloor>mag c' e' * 100 + 1 / 2\<rfloor>) (- 2))
      = round_half_up (dec_val (Dec sv m (- 2)) * dec_val (Dec u p g) / 100) 2"
  proof -
    have "dec_val (Dec (sv \<noteq> u) c' e') = dec_val (Dec sv m (- 2)) * dec_val (Dec u p g) / 100"
      unfolding dec_val_mult by (simp add: dec_val_Dec v1 v2)
    then show ?thesis by (simp only: round_half_up_val)
  qed
  ultimately show ?thesis by blast
qed


lemma div_two:
  assumes "ndigits n \<le> 28"
  shows "dec_div (Dec s n (- 2)) two =
           (if even n then Inr (Dec s (n div 2) (- 2)) else dec_fix s (5 * n) (- 3))"
proof (cases "n = 0")
  case True
  then show ?thesis by (simp add: two_def fix_id ctx_defs)
next
  case False
  define sh where "sh = 30 - ndigits n"
  have sh: "int (ndigits 2) - int (ndigits n) + int prec + 1 = int sh" "2 \<le> sh"
    using assms by (simp_all add: sh_def ndigits_2 prec_def)
  define j where "j = sh - 1"
  have j: "j + 1 = sh" using sh(2) by (simp add: j_def)
  have p: "(10::nat) ^ sh = 10 ^ j * 10"
  proof -
    from j have "(10::nat) ^ sh = 10 ^ (j + 1)" by (rule arg_cong [symmetric])
    then show ?thesis by (simp only: power_add) simp
  qed
  have eq: "n * 10 ^ sh = (5 * n * 10 ^ j) * 2" by (simp add: p)
  have q: "n * 10 ^ sh div 2 = 5 * n * 10 ^ j" "n * 10 ^ sh mod 2 = 0"
    unfolding eq by simp_all
  have e3: "- 2 - int sh + int j = - 3" using j by simp
  have "strip_zeros (5 * n * 10 ^ j) (- 2 - int sh) (- 2)
      = strip_zeros (5 * n) (- 2 - int sh + int j) (- 2)"
    by (rule strip_zeros_mult) (simp add: e3)
  then have st: "strip_zeros (5 * n * 10 ^ j) (- 2 - int sh) (- 2) = strip_zeros (5 * n) (- 3) (- 2)"
    by (simp only: e3)
  have dv: "dec_div (Dec s n (- 2)) two =
      (case strip_zeros (5 * n) (- 3) (- 2) of (q', ex') \<Rightarrow> dec_fix s q' ex')"
    using False by (simp add: two_def sh(1) Let_def q st)
  show ?thesis
  proof (cases "even n")
    case True
    then have m: "5 * n mod 10 = 0" by presburger
    have d: "5 * n div 10 = n div 2" by presburger
    have "strip_zeros (5 * n) (- 3) (- 2) = strip_zeros (n div 2) (- 2) (- 2)"
      by (subst strip_zeros.simps) (simp add: m d)
    also have "\<dots> = (n div 2, - 2)"
      by (subst strip_zeros.simps) simp
    finally have s2: "strip_zeros (5 * n) (- 3) (- 2) = (n div 2, - 2)" .
    have "ndigits (n div 2) \<le> 28"
      using ndigits_mono [of "n div 2" n] assms by simp
    then have "dec_fix s (n div 2) (- 2) = Inr (Dec s (n div 2) (- 2))"
      by (intro fix_id) (simp_all add: ctx_defs)
    with True show ?thesis by (simp add: dv s2)
  next
    case False
    then have m: "5 * n mod 10 \<noteq> 0" by presburger
    have "strip_zeros (5 * n) (- 3) (- 2) = (5 * n, - 3)"
      by (subst strip_zeros.simps) (simp add: m)
    with False show ?thesis by (simp add: dv)
  qed
qed

lemma round_digits_five:
  assumes "odd n"
  shows "round_digits ROUND_HALF_UP (5 * n) (Suc 0) = n div 2 + 1"
    and "round_digits ROUND_HALF_EVEN (5 * n) (Suc 0) = (if odd (n div 2) then n div 2 + 1 else n div 2)"
proof -
  have d: "5 * n div 10 = n div 2" by presburger
  have m: "5 * n mod 10 = 5" using assms by presburger
  show "round_digits ROUND_HALF_UP (5 * n) (Suc 0) = n div 2 + 1"
    by (simp add: round_digits_def d m)
  show "round_digits ROUND_HALF_EVEN (5 * n) (Suc 0) = (if odd (n div 2) then n div 2 + 1 else n div 2)"
    by (simp add: round_digits_def d m)
qed

lemma half_of_cents:
  assumes "ndigits n \<le> 28"
  shows "half_of (Dec s n (- 2)) = Inr (Dec s (half_cents n) (- 2))"
proof -
  have n: "n < 10 ^ 28" using assms by (simp add: ndigits_le_iff)
  show ?thesis
  proof (cases "even n")
    case True
    have "ndigits (n div 2) \<le> 28"
      using ndigits_mono [of "n div 2" n] assms by simp
    from quantize_same [OF this, of ROUND_HALF_UP s] True show ?thesis
      by (simp add: half_of_def div_two [OF assms] and_then_def half_cents_def)
  next
    case odd: False
    show ?thesis
    proof (cases "5 * n < 10 ^ 28")
      case True
      then have nd: "ndigits (5 * n) \<le> 28" by (simp add: ndigits_le_iff)
      then have fx: "dec_fix s (5 * n) (- 3) = Inr (Dec s (5 * n) (- 3))"
        by (intro fix_id) (simp_all add: ctx_defs)
      have r: "rescale ROUND_HALF_UP (5 * n) (- 3) (- 2) = n div 2 + 1"
        using round_digits_five(1) [OF odd] by (simp add: rescale_def)
      have "dec_quantize ROUND_HALF_UP (Dec s (5 * n) (- 3)) cent = Inr (Dec s (n div 2 + 1) (- 2))"
        using quantize_cent [of "5 * n" "- 3" ROUND_HALF_UP s] nd n by (simp add: r)
      with odd True show ?thesis
        by (simp add: half_of_def div_two [OF assms] and_then_def half_cents_def fx)
    next
      case False
      have "5 * n < 10 ^ 29" using n by simp
      then have "ndigits (5 * n) \<le> 29" by (simp add: ndigits_le_iff)
      moreover have "\<not> ndigits (5 * n) \<le> 28" using False by (simp add: ndigits_le_iff)
      ultimately have nd: "ndigits (5 * n) = 29" by simp
      let ?h = "if odd (n div 2) then n div 2 + 1 else n div 2"
      have h: "?h < 10 ^ 28" using n odd by auto
      then have ndh: "ndigits ?h \<le> 28" by (simp only: ndigits_le_iff) 
      have "n \<noteq> 0" using odd by (intro notI) simp
      then have nz: "5 * n \<noteq> 0" by simp
      have rd: "round_digits ROUND_HALF_EVEN (5 * n) (Suc 0) = ?h"
        by (rule round_digits_five(2) [OF odd])
      have fx: "dec_fix s (5 * n) (- 3) = Inr (Dec s ?h (- 2))"
        using ndh nz unfolding dec_fix_def nd Let_def
        by (simp add: ctx_defs rd del: mult_eq_0_iff)
      from quantize_same [OF ndh, of ROUND_HALF_UP s] odd False show ?thesis
        by (simp add: half_of_def div_two [OF assms] and_then_def half_cents_def fx)
    qed
  qed
qed


lemmas dec_eval = taxable_of_def tax_of_def half_of_def gst_split_def and_then_def dec_fix_def
  ndigits.simps round_digits_def rescale_def ctx_defs Let_def cent_def zero2_def hundred_def
  two_def strip_zeros.simps signed_def

lemmas view_eval = invoice_viewer_def invoice_data_of_def seller_gst_of_def buyer_gst_of_def
  linked_gst_def obj_get_def dict_get_def items_of_def py_or_def py_strip_def py_isspace_def
  invoice_type_of_def tax_mode_of_def gst_state_def str_isdigit_def py_isdigit_def
  ascii_digit_def item_decimal_def decimal_of_str_def split_sign_def parse_numeric_def
  parse_exp_def digits_to_nat_def lower_ascii_def loop_body_def add_split_def hsn_check_def
  hsn_digits_of_def recommended_of_def grand_total_of_def zero_totals_def

lemma floor_numeral_div: "\<lfloor>(numeral a :: rat) / numeral b\<rfloor> = numeral a div numeral b"
  using floor_divide_of_int_eq [of "numeral a" "numeral b", where ?'a = rat] by simp

subsection \<open>The values of a line\<close>

text \<open>
  C4, as the code has it.  When the product of the coefficients of \<^verbatim>\<open>qty\<close> and
  \<^verbatim>\<open>rate\<close> has at most 28 digits (so that the context does not round it), the sum
  of their exponents is not below \<open>Etiny\<close> and the product is below \<open>10 ^ 25\<close> in
  magnitude, the taxable value is computed and equals the product rounded half-up to two
  decimals.  Under the same conditions on a taxable value of two decimals and the tax
  percent, the tax value is computed and equals taxable value times percent over 100,
  rounded half-up to two decimals.
\<close>

theorem line_values_round_half_up:
  "(ndigits (c * d) \<le> 28 \<and> Etiny \<le> e + f
      \<and> \<bar>dec_val (Dec s c e) * dec_val (Dec t d f)\<bar> < 10 ^ 25 \<longrightarrow>
      (\<exists>m. taxable_of (Dec s c e) (Dec t d f) = Inr (Dec (s \<noteq> t) m (- 2))
         \<and> dec_val (Dec (s \<noteq> t) m (- 2))
             = round_half_up (dec_val (Dec s c e) * dec_val (Dec t d f)) 2))
   \<and> (ndigits (m * p) \<le> 28 \<and> Etiny \<le> g - 4
      \<and> \<bar>dec_val (Dec sv m (- 2)) * dec_val (Dec u p g) / 100\<bar> < 10 ^ 25 \<longrightarrow>
      (\<exists>n. tax_of (Dec sv m (- 2)) (Dec u p g) = Inr (Dec (sv \<noteq> u) n (- 2))
         \<and> dec_val (Dec (sv \<noteq> u) n (- 2))
             = round_half_up (dec_val (Dec sv m (- 2)) * dec_val (Dec u p g) / 100) 2))"
  using taxable_of_value [of c d e f s t] tax_of_value [of m p g sv u] by blast

theorem line_values_round_half_up_witness:
  "ndigits (2 * 100) \<le> 28 \<and> Etiny \<le> 0 + 0
   \<and> \<bar>dec_val (Dec False 2 0) * dec_val (Dec False 100 0)\<bar> < 10 ^ 25
   \<and> taxable_of (Dec False 2 0) (Dec False 100 0) = Inr (Dec False 20000 (- 2))
   \<and> dec_val (Dec False 20000 (- 2))
        = round_half_up (dec_val (Dec False 2 0) * dec_val (Dec False 100 0)) 2
   \<and> ndigits (20000 * 18) \<le> 28 \<and> Etiny \<le> 0 - 4
   \<and> \<bar>dec_val (Dec False 20000 (- 2)) * dec_val (Dec False 18 0) / 100\<bar> < 10 ^ 25
   \<and> tax_of (Dec False 20000 (- 2)) (Dec False 18 0) = Inr (Dec False 3600 (- 2))
   \<and> dec_val (Dec False 3600 (- 2))
        = round_half_up (dec_val (Dec False 20000 (- 2)) * dec_val (Dec False 18 0) / 100) 2"
proof -
  have h1: "ndigits (2 * 100) \<le> 28 \<and> Etiny \<le> 0 + 0
      \<and> \<bar>dec_val (Dec False 2 0) * dec_val (Dec False 100 0)\<bar> < 10 ^ 25"
    by (simp add: ndigits.simps ctx_defs dec_val_def)
  have h2: "ndigits (20000 * 18) \<le> 28 \<and> Etiny \<le> 0 - 4
      \<and> \<bar>dec_val (Dec False 20000 (- 2)) * dec_val (Dec False 18 0) / 100\<bar> < 10 ^ 25"
    by (simp add: ndigits.simps ctx_defs dec_val_def)
  have t1: "taxable_of (Dec False 2 0) (Dec False 100 0) = Inr (Dec False 20000 (- 2))"
    by (simp add: dec_eval)
  have t2: "tax_of (Dec False 20000 (- 2)) (Dec False 18 0) = Inr (Dec False 3600 (- 2))"
    by (simp add: dec_eval)
  from line_values_round_half_up [of 2 100 0 0 False False 20000 18 0 False False] h1 h2 t1 t2
  show ?thesis by simp
qed

text \<open>
  Without the bound on the digits the statement fails.  The quantity
  \<^verbatim>\<open>"0.00499999999999999999999999999995"\<close> at rate 1 has a product of 30 digits;
  the context rounds it to \<^verbatim>\<open>0.005000000000000000000000000000\<close> and
  \<^verbatim>\<open>quantize\<close> then gives a taxable value of 0.01, where the product rounded
  half-up to two decimals is 0.00.
\<close>

theorem taxable_value_double_rounding_counterexample:
  "invoice_viewer None None
     (Some (JDict [(''items'', JList [JDict
        [(''qty'', JStr ''0.00499999999999999999999999999995''), (''rate'', JInt 1)]])]))
   = Inr \<lparr>breakdown =
        [\<lparr>description = JStr [], qty = Dec False 499999999999999999999999999995 (- 32),
          rate = Dec False 1 0, tax_percent = Dec False 0 0,
          taxable_value = Dec False 1 (- 2),
          tax_value = Dec False 0 (- 2), cgst = Dec False 0 (- 2),
          sgst = Dec False 0 (- 2), igst = Dec False 0 (- 2),
          hsn = JStr [], hsn_warning = True, hsn_recommended = 4\<rparr>],
        view_totals =
          \<lparr>total_taxable = Dec False 1 (- 2), total_tax = Dec False 0 (- 2),
            total_cgst = Dec False 0 (- 2), total_sgst = Dec False 0 (- 2),
            total_igst = Dec False 0 (- 2)\<rparr>,
        grand_total = Dec False 1 (- 2), seller_gst = [], buyer_gst = [],
        invoice_kind = B2C, mode_of_tax = INTER\<rparr>
   \<and> round_half_up (dec_val (Dec False 499999999999999999999999999995 (- 32))
        * dec_val (Dec False 1 0)) 2 = 0
   \<and> dec_val (Dec False 1 (- 2)) = 1 / 100"
  by (simp add: view_eval dec_eval round_half_up_def dec_val_def floor_numeral_div)

subsection \<open>The split into CGST, SGST and IGST\<close>

lemma half_cents_even: "even n \<Longrightarrow> 2 * half_cents n = n"
  by (simp add: half_cents_def)

lemma half_cents_odd:
  assumes "odd n"
  shows "2 * half_cents n = n + 1 \<or> 2 * half_cents n + 1 = n"
  using assms odd_two_times_div_two_succ [OF assms]
  by (cases "5 * n < 10 ^ 28"; cases "odd (n div 2)") (simp_all add: half_cents_def)

lemma half_cents_small:
  assumes "n < 2 * 10 ^ 27"
  shows "half_cents n = (n + 1) div 2"
proof -
  from assms have "5 * n < 10 ^ 28" by simp
  then show ?thesis by (cases "even n") (auto simp add: half_cents_def elim: evenE oddE)
qed

lemma dec_val_cents: "dec_val (Dec s c (- 2)) = (if s then - 1 else 1) * of_nat c / 100"
  by (simp add: dec_val_def)

lemma round_half_up_half:
  "round_half_up (dec_val (Dec s n (- 2)) / 2) 2 = dec_val (Dec s ((n + 1) div 2) (- 2))"
proof (cases "n = 0")
  case True
  then show ?thesis by (simp add: round_half_up_def dec_val_cents)
next
  case False
  have "(of_nat n :: rat) / 2 + 1 / 2 = of_nat (n + 1) / of_nat 2" by (simp add: field_simps)
  then have fl: "\<lfloor>(of_nat n :: rat) / 2 + 1 / 2\<rfloor> = int ((n + 1) div 2)"
    by (simp only: floor_divide_of_nat_eq)
  have a: "\<bar>dec_val (Dec s n (- 2)) / 2\<bar> * 10 ^ 2 + 1 / 2 = of_nat n / 2 + 1 / 2"
    by (simp add: dec_val_cents)
  have sg: "sgn (dec_val (Dec s n (- 2)) / 2) = (if s then - 1 else 1)"
    using False by (simp add: dec_val_cents sgn_if)
  show ?thesis
    unfolding round_half_up_def a fl sg by (simp add: dec_val_cents)
qed


text \<open>
  C5, as the code has it.  On an inter-state invoice IGST is the tax value itself and
  CGST and SGST are \<^verbatim>\<open>Decimal("0.00")\<close>.  On an intra-state invoice, for a tax value
  of \<open>n\<close> cents (two decimals, at most 28 digits, which is what \<^verbatim>\<open>quantize\<close>
  returns), CGST and SGST are the same amount and IGST is 0.00; their sum is within 0.01
  of the tax value and equals it exactly when \<open>n\<close> is even; and each is the half of
  the tax value rounded half-up to two decimals when \<open>n < 2 * 10 ^ 27\<close>.
\<close>

theorem gst_split_values:
  "gst_split INTER tx = Inr (zero2, zero2, tx)
   \<and> (ndigits n \<le> 28 \<longrightarrow>
        gst_split INTRA (Dec s n (- 2))
          = Inr (Dec s (half_cents n) (- 2), Dec s (half_cents n) (- 2), zero2)
        \<and> \<bar>dec_val (Dec s (half_cents n) (- 2)) + dec_val (Dec s (half_cents n) (- 2))
             - dec_val (Dec s n (- 2))\<bar> \<le> 1 / 100
        \<and> (dec_val (Dec s (half_cents n) (- 2)) + dec_val (Dec s (half_cents n) (- 2))
             = dec_val (Dec s n (- 2)) \<longleftrightarrow> even n)
        \<and> (n < 2 * 10 ^ 27 \<longrightarrow>
             dec_val (Dec s (half_cents n) (- 2)) = round_half_up (dec_val (Dec s n (- 2)) / 2) 2))"
proof -
  have inter: "gst_split INTER tx = Inr (zero2, zero2, tx)"
    by (simp add: gst_split_def)
  have sum: "dec_val (Dec s (half_cents n) (- 2)) + dec_val (Dec s (half_cents n) (- 2))
      = (if s then - 1 else 1) * of_nat (2 * half_cents n) / 100"
    by (simp add: dec_val_cents)
  have diff: "dec_val (Dec s (half_cents n) (- 2)) + dec_val (Dec s (half_cents n) (- 2))
             - dec_val (Dec s n (- 2))
      = (if s then - 1 else 1) * (of_int (int (2 * half_cents n) - int n) / 100)"
    unfolding sum by (simp add: dec_val_cents field_simps)
  have "\<bar>int (2 * half_cents n) - int n\<bar> \<le> 1"
    using half_cents_even [of n] half_cents_odd [of n] by (cases "even n") auto
  then have "(of_int \<bar>int (2 * half_cents n) - int n\<bar> :: rat) \<le> of_int 1"
    by (simp only: of_int_le_iff)
  then have close: "\<bar>dec_val (Dec s (half_cents n) (- 2)) + dec_val (Dec s (half_cents n) (- 2))
             - dec_val (Dec s n (- 2))\<bar> \<le> 1 / 100"
    unfolding diff by (simp add: abs_mult)
  have "dec_val (Dec s (half_cents n) (- 2)) + dec_val (Dec s (half_cents n) (- 2))
             = dec_val (Dec s n (- 2)) \<longleftrightarrow> int (2 * half_cents n) - int n = 0"
    using diff by (auto split: if_splits)
  also have "\<dots> \<longleftrightarrow> even n"
    using half_cents_even [of n] half_cents_odd [of n] by (cases "even n") auto
  finally have exact: "dec_val (Dec s (half_cents n) (- 2)) + dec_val (Dec s (half_cents n) (- 2))
             = dec_val (Dec s n (- 2)) \<longleftrightarrow> even n" .
  have split: "ndigits n \<le> 28 \<Longrightarrow> gst_split INTRA (Dec s n (- 2))
          = Inr (Dec s (half_cents n) (- 2), Dec s (half_cents n) (- 2), zero2)"
    by (simp add: gst_split_def half_of_cents and_then_def)
  have rhu: "n < 2 * 10 ^ 27 \<Longrightarrow>
      dec_val (Dec s (half_cents n) (- 2)) = round_half_up (dec_val (Dec s n (- 2)) / 2) 2"
    by (simp only: round_half_up_half half_cents_small)
  from inter close exact split rhu show ?thesis by blast
qed

theorem gst_split_values_witness:
  "gst_split INTER (Dec False 3600 (- 2)) = Inr (zero2, zero2, Dec False 3600 (- 2))
   \<and> ndigits 3601 \<le> 28
   \<and> gst_split INTRA (Dec False 3601 (- 2)) = Inr (Dec False 1801 (- 2), Dec False 1801 (- 2), zero2)
   \<and> half_cents 3601 = 1801
   \<and> 3601 < (2::nat) * 10 ^ 27
   \<and> dec_val (Dec False 1801 (- 2)) = round_half_up (dec_val (Dec False 3601 (- 2)) / 2) 2"
proof -
  have h: "ndigits 3601 \<le> 28" by (simp add: ndigits.simps)
  have c: "half_cents 3601 = 1801" by (simp add: half_cents_def)
  from gst_split_values [of "Dec False 3600 (- 2)" 3601 False] h c show ?thesis by simp
qed

subsection \<open>The totals\<close>

lemma is_moneyE:
  assumes "is_money d"
  obtains s c where "d = Dec s c (- 2)" "c < 10 ^ 28"
  using assms by (cases d) (auto simp add: is_money_def)

lemma fix_money: "c < 10 ^ 28 \<Longrightarrow> dec_fix s c (- 2) = Inr (Dec s c (- 2))"
  by (intro fix_id) (simp_all add: ndigits_le_iff ctx_defs)

lemma add_money:
  assumes "is_money x" "is_money y" "\<bar>cents x + cents y\<bar> < 10 ^ 28"
  shows "\<exists>z. dec_add x y = Inr z \<and> is_money z \<and> cents z = cents x + cents y"
proof -
  from assms(1) obtain s c where x: "x = Dec s c (- 2)" and c: "c < 10 ^ 28" by (rule is_moneyE)
  from assms(2) obtain t d where y: "y = Dec t d (- 2)" and d: "d < 10 ^ 28" by (rule is_moneyE)
  let ?r = "signed s c + signed t d"
  from assms(3) have r: "\<bar>?r\<bar> < 10 ^ 28" by (simp add: x y cents_def)
  then have nr: "nat \<bar>?r\<bar> < 10 ^ 28" by (simp add: nat_less_iff)
  consider "c = 0" "d = 0" | "c = 0" "d \<noteq> 0" | "c \<noteq> 0" "d = 0" | "c \<noteq> 0" "d \<noteq> 0" by blast
  then show ?thesis
  proof cases
    case 1
    then show ?thesis
      by (simp add: x y fix_money is_money_def cents_def signed_def)
  next
    case 2
    then show ?thesis using d
      by (simp add: x y fix_money is_money_def cents_def signed_def prec_def)
  next
    case 3
    then show ?thesis using c
      by (simp add: x y fix_money is_money_def cents_def signed_def prec_def)
  next
    case 4
    show ?thesis
    proof (cases "?r = 0")
      case True
      with 4 show ?thesis
        by (simp add: x y fix_money is_money_def cents_def Let_def) (simp add: signed_def)
    next
      case False
      have "signed (?r < 0) (nat \<bar>?r\<bar>) = ?r" by (simp add: signed_def)
      with 4 False nr show ?thesis
        by (simp add: x y fix_money is_money_def cents_def Let_def)
    qed
  qed
qed

lemma sum_dec_money:
  assumes "is_money a" "\<forall>x\<in>set xs. is_money x"
    and "\<bar>cents a\<bar> + (\<Sum>x\<leftarrow>xs. \<bar>cents x\<bar>) < 10 ^ 28"
  shows "\<exists>t. sum_dec a xs = Inr t \<and> is_money t \<and> cents t = cents a + (\<Sum>x\<leftarrow>xs. cents x)"
  using assms
proof (induction xs arbitrary: a)
  case Nil
  then show ?case by simp
next
  case (Cons x xs)
  have nn: "0 \<le> (\<Sum>x\<leftarrow>xs. \<bar>cents x\<bar>)" by (rule sum_list_nonneg) auto
  from Cons.prems have "\<bar>cents a + cents x\<bar> < 10 ^ 28" using nn by simp
  with Cons.prems add_money [of a x]
  obtain z where z: "dec_add a x = Inr z" "is_money z" "cents z = cents a + cents x" by auto
  have "\<bar>cents z\<bar> + (\<Sum>x\<leftarrow>xs. \<bar>cents x\<bar>) < 10 ^ 28"
    using Cons.prems(3) z(3) by simp
  with Cons.IH [of z] z(2) Cons.prems(2)
  obtain t where "sum_dec z xs = Inr t" "is_money t" "cents t = cents z + (\<Sum>x\<leftarrow>xs. cents x)"
    by auto
  with z show ?case by (simp add: and_then_def)
qed

lemma dec_val_money: "is_money x \<Longrightarrow> dec_val x = of_int (cents x) / 100"
  by (erule is_moneyE) (simp add: dec_val_cents cents_def signed_def)

lemma abs_dec_val_money: "is_money x \<Longrightarrow> \<bar>dec_val x\<bar> = of_int \<bar>cents x\<bar> / 100"
  by (simp add: dec_val_money)

lemma loop_body_Inr:
  assumes "loop_body itype mode (bd, tot) it = Inr (bd', tot')"
  shows "\<exists>l. bd' = bd @ [l] \<and> line_ok mode l \<and> totals_step mode tot l tot'"
proof -
  from assms obtain d q r tp h tv tx c s i tot1 tt tt2 w rc where
    tv: "taxable_of q r = Inr tv" and tx: "tax_of tv tp = Inr tx"
    and sp: "gst_split mode tx = Inr (c, s, i)"
    and as: "add_split mode tot c s i = Inr tot1"
    and a1: "dec_add (total_taxable tot1) tv = Inr tt"
    and a2: "dec_add (total_tax tot1) tx = Inr tt2"
    and bd': "bd' = bd @ [\<lparr>description = py_or d (JStr []), qty = q, rate = r, tax_percent = tp,
                taxable_value = tv, tax_value = tx, cgst = c, sgst = s, igst = i,
                hsn = py_or h (JStr []), hsn_warning = w, hsn_recommended = rc\<rparr>]"
    and tot': "tot' = tot1\<lparr>total_taxable := tt, total_tax := tt2\<rparr>"
    by (auto simp add: loop_body_def and_then_def split: sum.splits prod.splits)
  let ?l = "\<lparr>description = py_or d (JStr []), qty = q, rate = r, tax_percent = tp,
                taxable_value = tv, tax_value = tx, cgst = c, sgst = s, igst = i,
                hsn = py_or h (JStr []), hsn_warning = w, hsn_recommended = rc\<rparr>"
  have ok: "line_ok mode ?l"
    using tv tx sp
    by (auto simp add: line_ok_def taxable_of_def tax_of_def and_then_def split: sum.splits)
  have st: "totals_step mode tot ?l tot'"
    using as a1 a2 unfolding tot'
    by (cases mode) (auto simp add: totals_step_def add_split_def and_then_def split: sum.splits)
  from bd' ok st show ?thesis by blast
qed

lemma process_items_lines:
  assumes "process_items itype mode its (bd0, tot0) = Inr (bd, tot)"
  shows "\<exists>ls. bd = bd0 @ ls \<and> (\<forall>l\<in>set ls. line_ok mode l)
           \<and> sum_dec (total_taxable tot0) (map taxable_value ls) = Inr (total_taxable tot)
           \<and> sum_dec (total_tax tot0) (map tax_value ls) = Inr (total_tax tot)
           \<and> (case mode of
                 INTRA \<Rightarrow> sum_dec (total_cgst tot0) (map cgst ls) = Inr (total_cgst tot)
                          \<and> sum_dec (total_sgst tot0) (map sgst ls) = Inr (total_sgst tot)
                          \<and> total_igst tot = total_igst tot0
               | INTER \<Rightarrow> sum_dec (total_igst tot0) (map igst ls) = Inr (total_igst tot)
                          \<and> total_cgst tot = total_cgst tot0
                          \<and> total_sgst tot = total_sgst tot0)"
  using assms
proof (induction its arbitrary: bd0 tot0)
  case Nil
  then show ?case by (cases mode) auto
next
  case (Cons it its)
  from Cons.prems obtain bd1 tot1 where
    b: "loop_body itype mode (bd0, tot0) it = Inr (bd1, tot1)"
    and p: "process_items itype mode its (bd1, tot1) = Inr (bd, tot)"
    by (auto simp add: and_then_def split: sum.splits)
  from loop_body_Inr [OF b] obtain l where
    l: "bd1 = bd0 @ [l]" "line_ok mode l" "totals_step mode tot0 l tot1" by blast
  from Cons.IH [OF p] obtain ls where
    ls: "bd = bd1 @ ls" "\<forall>l\<in>set ls. line_ok mode l"
      "sum_dec (total_taxable tot1) (map taxable_value ls) = Inr (total_taxable tot)"
      "sum_dec (total_tax tot1) (map tax_value ls) = Inr (total_tax tot)"
      "(case mode of
                 INTRA \<Rightarrow> sum_dec (total_cgst tot1) (map cgst ls) = Inr (total_cgst tot)
                          \<and> sum_dec (total_sgst tot1) (map sgst ls) = Inr (total_sgst tot)
                          \<and> total_igst tot = total_igst tot1
               | INTER \<Rightarrow> sum_dec (total_igst tot1) (map igst ls) = Inr (total_igst tot)
                          \<and> total_cgst tot = total_cgst tot1
                          \<and> total_sgst tot = total_sgst tot1)"
    by blast
  show ?case
  proof (intro exI [of _ "l # ls"] conjI)
    show "bd = bd0 @ l # ls" using l(1) ls(1) by simp
    show "\<forall>l\<in>set (l # ls). line_ok mode l" using l(2) ls(2) by simp
    show "sum_dec (total_taxable tot0) (map taxable_value (l # ls)) = Inr (total_taxable tot)"
      using l(3) ls(3) by (simp add: totals_step_def and_then_def)
    show "sum_dec (total_tax tot0) (map tax_value (l # ls)) = Inr (total_tax tot)"
      using l(3) ls(4) by (simp add: totals_step_def and_then_def)
    show "case mode of
                 INTRA \<Rightarrow> sum_dec (total_cgst tot0) (map cgst (l # ls)) = Inr (total_cgst tot)
                          \<and> sum_dec (total_sgst tot0) (map sgst (l # ls)) = Inr (total_sgst tot)
                          \<and> total_igst tot = total_igst tot0
               | INTER \<Rightarrow> sum_dec (total_igst tot0) (map igst (l # ls)) = Inr (total_igst tot)
                          \<and> total_cgst tot = total_cgst tot0
                          \<and> total_sgst tot = total_sgst tot0"
      using l(3) ls(5) by (cases mode) (simp_all add: totals_step_def and_then_def)
  qed
qed

lemma half_cents_le: "half_cents n \<le> n"
proof (cases "even n")
  case True
  then show ?thesis by (simp add: half_cents_def)
next
  case False
  then have "n div 2 + 1 \<le> n" by (auto elim: oddE)
  with False show ?thesis by (simp add: half_cents_def)
qed

lemma is_money_zero2 [simp]: "is_money zero2" "cents zero2 = 0"
  by (simp_all add: is_money_def zero2_def cents_def signed_def)

lemma quantize_money:
  assumes "dec_quantize rm x cent = Inr z" "z \<noteq> QNaN"
  shows "is_money z"
  using quantize_shape [OF assms(1)] assms(2) by (auto simp add: is_money_def ndigits_le_iff)

lemma abs_signed: "\<bar>signed s c\<bar> = int c"
  by (simp add: signed_def)

lemma line_money:
  assumes "line_ok mode l" "taxable_value l \<noteq> QNaN" "tax_value l \<noteq> QNaN"
  shows "is_money (taxable_value l) \<and> is_money (tax_value l) \<and> is_money (cgst l)
         \<and> is_money (sgst l) \<and> is_money (igst l)
         \<and> \<bar>cents (cgst l)\<bar> \<le> \<bar>cents (tax_value l)\<bar>
         \<and> \<bar>cents (sgst l)\<bar> \<le> \<bar>cents (tax_value l)\<bar>
         \<and> \<bar>cents (igst l)\<bar> \<le> \<bar>cents (tax_value l)\<bar>"
proof -
  from assms have tv: "is_money (taxable_value l)" and tx: "is_money (tax_value l)"
    by (auto simp add: line_ok_def intro: quantize_money)
  from tx obtain s n where n: "tax_value l = Dec s n (- 2)" "n < 10 ^ 28" by (rule is_moneyE)
  then have nd: "ndigits n \<le> 28" by (simp add: ndigits_le_iff)
  from assms(1) have sp: "gst_split mode (Dec s n (- 2)) = Inr (cgst l, sgst l, igst l)"
    by (simp add: line_ok_def n)
  show ?thesis
  proof (cases mode)
    case INTRA
    with sp have e: "cgst l = Dec s (half_cents n) (- 2)" "sgst l = Dec s (half_cents n) (- 2)"
      "igst l = zero2"
      by (auto simp add: gst_split_def half_of_cents [OF nd] and_then_def)
    have h: "half_cents n < 10 ^ 28" using half_cents_le [of n] n(2) by simp
    then have hm: "is_money (Dec s (half_cents n) (- 2))" by (simp add: is_money_def)
    have hc: "\<bar>cents (Dec s (half_cents n) (- 2))\<bar> \<le> \<bar>cents (tax_value l)\<bar>"
      using half_cents_le [of n] by (simp add: n(1) cents_def abs_signed)
    from tv tx hm hc show ?thesis by (simp add: e)
  next
    case INTER
    with sp have "cgst l = zero2" "sgst l = zero2" "igst l = tax_value l"
      by (auto simp add: gst_split_def n)
    with tv tx show ?thesis by simp
  qed
qed

lemma sum_dec_val:
  "\<forall>x\<in>set xs. is_money x \<Longrightarrow> (\<Sum>x\<leftarrow>xs. dec_val x) = of_int (\<Sum>x\<leftarrow>xs. cents x) / 100"
  by (induction xs) (simp_all add: dec_val_money add_divide_distrib)

lemma sum_abs_dec_val:
  "\<forall>x\<in>set xs. is_money x \<Longrightarrow> (\<Sum>x\<leftarrow>xs. \<bar>dec_val x\<bar>) = of_int (\<Sum>x\<leftarrow>xs. \<bar>cents x\<bar>) / 100"
  by (induction xs) (simp_all add: dec_val_money add_divide_distrib)

lemma sum_abs_dec_val_lines:
  "\<forall>l\<in>set bd. is_money (f l) \<Longrightarrow>
     (\<Sum>l\<leftarrow>bd. \<bar>dec_val (f l)\<bar>) = of_int (\<Sum>l\<leftarrow>bd. \<bar>cents (f l)\<bar>) / 100"
  by (induction bd) (simp_all add: dec_val_money add_divide_distrib)

lemma abs_sum_list_le: "\<bar>\<Sum>x\<leftarrow>xs. (f x :: int)\<bar> \<le> (\<Sum>x\<leftarrow>xs. \<bar>f x\<bar>)"
  by (induction xs) auto

lemma sum_list_abs_mono:
  "\<forall>x\<in>set xs. \<bar>f x :: int\<bar> \<le> \<bar>g x\<bar> \<Longrightarrow> (\<Sum>x\<leftarrow>xs. \<bar>f x\<bar>) \<le> (\<Sum>x\<leftarrow>xs. \<bar>g x\<bar>)"
  by (induction xs) auto

lemma total_is_sum:
  assumes "sum_dec zero2 (map f bd) = Inr t"
    and "\<forall>l\<in>set bd. is_money (f l)"
    and "(\<Sum>l\<leftarrow>bd. \<bar>cents (f l)\<bar>) < 10 ^ 28"
  shows "is_money t \<and> cents t = (\<Sum>l\<leftarrow>bd. cents (f l))
         \<and> dec_val t = (\<Sum>l\<leftarrow>bd. dec_val (f l))"
proof -
  have m: "\<forall>x\<in>set (map f bd). is_money x" using assms(2) by simp
  have b: "\<bar>cents zero2\<bar> + (\<Sum>x\<leftarrow>map f bd. \<bar>cents x\<bar>) < 10 ^ 28"
    using assms(3) by (simp add: comp_def)
  from sum_dec_money [OF is_money_zero2(1) m b] assms(1)
  have t: "is_money t" "cents t = (\<Sum>x\<leftarrow>map f bd. cents x)" by auto
  have "(\<Sum>l\<leftarrow>bd. dec_val (f l)) = (\<Sum>x\<leftarrow>map f bd. dec_val x)" by (simp add: comp_def)
  also have "\<dots> = of_int (\<Sum>x\<leftarrow>map f bd. cents x) / 100" by (rule sum_dec_val [OF m])
  finally have "(\<Sum>l\<leftarrow>bd. dec_val (f l)) = dec_val t"
    using t by (simp add: dec_val_money)
  with t show ?thesis by (simp add: comp_def)
qed



text \<open>
  C6, as the code has it.  When the loop returns, no line value is a NaN and the sum of
  the magnitudes of the taxable values and tax values of all lines is below
  \<open>10 ^ 26\<close> (so that no running total needs more than 28 digits), each of the five
  totals equals the exact sum of the corresponding field of the lines, and the grand
  total is computed, is the sum of the total taxable value and the total tax, and the
  final \<^verbatim>\<open>quantize\<close> leaves that sum as it is.
\<close>

theorem totals_exact_sums:
  assumes "process_items itype mode its ([], zero_totals) = Inr (bd, tot)"
    and "\<forall>l\<in>set bd. taxable_value l \<noteq> QNaN \<and> tax_value l \<noteq> QNaN"
    and "(\<Sum>l\<leftarrow>bd. \<bar>dec_val (taxable_value l)\<bar> + \<bar>dec_val (tax_value l)\<bar>) < 10 ^ 26"
  shows "dec_val (total_taxable tot) = (\<Sum>l\<leftarrow>bd. dec_val (taxable_value l))
       \<and> dec_val (total_tax tot) = (\<Sum>l\<leftarrow>bd. dec_val (tax_value l))
       \<and> dec_val (total_cgst tot) = (\<Sum>l\<leftarrow>bd. dec_val (cgst l))
       \<and> dec_val (total_sgst tot) = (\<Sum>l\<leftarrow>bd. dec_val (sgst l))
       \<and> dec_val (total_igst tot) = (\<Sum>l\<leftarrow>bd. dec_val (igst l))
       \<and> (\<exists>g. grand_total_of tot = Inr g
              \<and> dec_add (total_taxable tot) (total_tax tot) = Inr g
              \<and> dec_val g = dec_val (total_taxable tot) + dec_val (total_tax tot))"
proof -
  from process_items_lines [OF assms(1)] have
    ok: "\<forall>l\<in>set bd. line_ok mode l"
    and s1: "sum_dec zero2 (map taxable_value bd) = Inr (total_taxable tot)"
    and s2: "sum_dec zero2 (map tax_value bd) = Inr (total_tax tot)"
    and s3: "case mode of
                 INTRA \<Rightarrow> sum_dec zero2 (map cgst bd) = Inr (total_cgst tot)
                          \<and> sum_dec zero2 (map sgst bd) = Inr (total_sgst tot)
                          \<and> total_igst tot = zero2
               | INTER \<Rightarrow> sum_dec zero2 (map igst bd) = Inr (total_igst tot)
                          \<and> total_cgst tot = zero2
                          \<and> total_sgst tot = zero2"
    by (cases mode; auto simp add: zero_totals_def)+
  have lm: "\<forall>l\<in>set bd. is_money (taxable_value l) \<and> is_money (tax_value l) \<and> is_money (cgst l)
         \<and> is_money (sgst l) \<and> is_money (igst l)
         \<and> \<bar>cents (cgst l)\<bar> \<le> \<bar>cents (tax_value l)\<bar>
         \<and> \<bar>cents (sgst l)\<bar> \<le> \<bar>cents (tax_value l)\<bar>
         \<and> \<bar>cents (igst l)\<bar> \<le> \<bar>cents (tax_value l)\<bar>"
    using ok assms(2) line_money by blast
  then have mA: "\<forall>l\<in>set bd. is_money (taxable_value l)"
    and mB: "\<forall>l\<in>set bd. is_money (tax_value l)"
    and mC: "\<forall>l\<in>set bd. is_money (cgst l)"
    and mS: "\<forall>l\<in>set bd. is_money (sgst l)"
    and mI: "\<forall>l\<in>set bd. is_money (igst l)" by simp_all
  let ?A = "\<Sum>l\<leftarrow>bd. \<bar>cents (taxable_value l)\<bar>"
  let ?B = "\<Sum>l\<leftarrow>bd. \<bar>cents (tax_value l)\<bar>"
  have "(\<Sum>l\<leftarrow>bd. \<bar>dec_val (taxable_value l)\<bar> + \<bar>dec_val (tax_value l)\<bar>)
      = (\<Sum>l\<leftarrow>bd. \<bar>dec_val (taxable_value l)\<bar>) + (\<Sum>l\<leftarrow>bd. \<bar>dec_val (tax_value l)\<bar>)"
    by (rule sum_list_addf)
  also have "\<dots> = of_int ?A / 100 + of_int ?B / 100"
    by (simp only: sum_abs_dec_val_lines [OF mA] sum_abs_dec_val_lines [OF mB])
  also have "\<dots> = of_int (?A + ?B) / 100"
    by (simp add: add_divide_distrib)
  finally have "(of_int (?A + ?B) :: rat) / 100 < 10 ^ 26" using assms(3) by simp
  then have "(of_int (?A + ?B) :: rat) < of_int (10 ^ 28)" by simp
  then have AB: "?A + ?B < 10 ^ 28" by (simp only: of_int_less_iff)
  have A0: "0 \<le> ?A" by (rule sum_list_nonneg) auto
  have B0: "0 \<le> ?B" by (rule sum_list_nonneg) auto
  have bA: "?A < 10 ^ 28" and bB: "?B < 10 ^ 28" using AB A0 B0 by simp_all
  have bC: "(\<Sum>l\<leftarrow>bd. \<bar>cents (cgst l)\<bar>) < 10 ^ 28"
    using sum_list_abs_mono [of bd "\<lambda>l. cents (cgst l)" "\<lambda>l. cents (tax_value l)"] lm bB by simp
  have bS: "(\<Sum>l\<leftarrow>bd. \<bar>cents (sgst l)\<bar>) < 10 ^ 28"
    using sum_list_abs_mono [of bd "\<lambda>l. cents (sgst l)" "\<lambda>l. cents (tax_value l)"] lm bB by simp
  have bI: "(\<Sum>l\<leftarrow>bd. \<bar>cents (igst l)\<bar>) < 10 ^ 28"
    using sum_list_abs_mono [of bd "\<lambda>l. cents (igst l)" "\<lambda>l. cents (tax_value l)"] lm bB by simp
  from total_is_sum [OF s1 mA bA] have t1: "is_money (total_taxable tot)"
    "cents (total_taxable tot) = (\<Sum>l\<leftarrow>bd. cents (taxable_value l))"
    "dec_val (total_taxable tot) = (\<Sum>l\<leftarrow>bd. dec_val (taxable_value l))" by simp_all
  from total_is_sum [OF s2 mB bB] have t2: "is_money (total_tax tot)"
    "cents (total_tax tot) = (\<Sum>l\<leftarrow>bd. cents (tax_value l))"
    "dec_val (total_tax tot) = (\<Sum>l\<leftarrow>bd. dec_val (tax_value l))" by simp_all
  have zero_sum: "\<And>f. \<forall>l\<in>set bd. is_money (f l) \<and> cents (f l) = 0
      \<Longrightarrow> (\<Sum>l\<leftarrow>bd. dec_val (f l)) = dec_val zero2"
  proof -
    fix f assume a: "\<forall>l\<in>set bd. is_money (f l) \<and> cents (f l) = 0"
    then have "\<forall>l\<in>set bd. dec_val (f l) = 0" by (simp add: dec_val_money)
    then have "(\<Sum>l\<leftarrow>bd. dec_val (f l)) = 0" by (induction bd) simp_all
    then show "(\<Sum>l\<leftarrow>bd. dec_val (f l)) = dec_val zero2" by (simp add: dec_val_money)
  qed
  have t345: "dec_val (total_cgst tot) = (\<Sum>l\<leftarrow>bd. dec_val (cgst l))
       \<and> dec_val (total_sgst tot) = (\<Sum>l\<leftarrow>bd. dec_val (sgst l))
       \<and> dec_val (total_igst tot) = (\<Sum>l\<leftarrow>bd. dec_val (igst l))"
  proof (cases mode)
    case INTRA
    with s3 have c: "sum_dec zero2 (map cgst bd) = Inr (total_cgst tot)"
      and s: "sum_dec zero2 (map sgst bd) = Inr (total_sgst tot)"
      and i: "total_igst tot = zero2" by simp_all
    have iz: "\<forall>l\<in>set bd. is_money (igst l) \<and> cents (igst l) = 0"
    proof
      fix l assume l: "l \<in> set bd"
      with ok lm obtain s n where "tax_value l = Dec s n (- 2)" "n < 10 ^ 28"
        by (meson is_moneyE)
      then have nd: "ndigits n \<le> 28" "tax_value l = Dec s n (- 2)" by (simp_all add: ndigits_le_iff)
      from ok l INTRA have "gst_split INTRA (tax_value l) = Inr (cgst l, sgst l, igst l)"
        by (simp add: line_ok_def)
      then have "igst l = zero2"
        by (auto simp add: nd(2) gst_split_def half_of_cents [OF nd(1)] and_then_def)
      then show "is_money (igst l) \<and> cents (igst l) = 0" by simp
    qed
    from total_is_sum [OF c mC bC] total_is_sum [OF s mS bS] zero_sum [OF iz] i
    show ?thesis by simp
  next
    case INTER
    with s3 have i: "sum_dec zero2 (map igst bd) = Inr (total_igst tot)"
      and c: "total_cgst tot = zero2" and s: "total_sgst tot = zero2" by simp_all
    have z: "\<forall>l\<in>set bd. (is_money (cgst l) \<and> cents (cgst l) = 0)
        \<and> (is_money (sgst l) \<and> cents (sgst l) = 0)"
    proof
      fix l assume l: "l \<in> set bd"
      with ok INTER have "gst_split INTER (tax_value l) = Inr (cgst l, sgst l, igst l)"
        by (simp add: line_ok_def)
      then have "cgst l = zero2" "sgst l = zero2" by (auto simp add: gst_split_def)
      then show "(is_money (cgst l) \<and> cents (cgst l) = 0)
        \<and> (is_money (sgst l) \<and> cents (sgst l) = 0)" by simp
    qed
    from z have zc: "\<forall>l\<in>set bd. is_money (cgst l) \<and> cents (cgst l) = 0"
      and zs: "\<forall>l\<in>set bd. is_money (sgst l) \<and> cents (sgst l) = 0" by simp_all
    from total_is_sum [OF i mI bI] zero_sum [OF zc] zero_sum [OF zs] c s
    show ?thesis by simp
  qed
  have "\<bar>cents (total_taxable tot) + cents (total_tax tot)\<bar> \<le> ?A + ?B"
    using abs_sum_list_le [of "\<lambda>l. cents (taxable_value l)" bd]
      abs_sum_list_le [of "\<lambda>l. cents (tax_value l)" bd] t1(2) t2(2) by simp
  with AB have "\<bar>cents (total_taxable tot) + cents (total_tax tot)\<bar> < 10 ^ 28" by simp
  from add_money [OF t1(1) t2(1) this] obtain g where
    g: "dec_add (total_taxable tot) (total_tax tot) = Inr g" "is_money g"
      "cents g = cents (total_taxable tot) + cents (total_tax tot)" by blast
  from g(2) obtain s c where c: "g = Dec s c (- 2)" "c < 10 ^ 28" by (rule is_moneyE)
  then have "ndigits c \<le> 28" by (simp add: ndigits_le_iff)
  from quantize_same [OF this, of ROUND_HALF_EVEN s] g(1) c(1)
  have gt: "grand_total_of tot = Inr g" by (simp add: grand_total_of_def and_then_def)
  have "dec_val g = dec_val (total_taxable tot) + dec_val (total_tax tot)"
    using g(2,3) t1(1) t2(1) by (simp add: dec_val_money add_divide_distrib)
  with gt g(1) t1(3) t2(3) t345 show ?thesis by blast
qed

theorem totals_exact_sums_witness:
  "process_items B2B INTRA [JDict [(''qty'', JInt 2), (''rate'', JInt 100), (''tax_rate'', JInt 18), (''hsn'', JStr ''1234'')]] ([], zero_totals) = Inr ([\<lparr>description = JStr [], qty = Dec False 2 0,
          rate = Dec False 100 0, tax_percent = Dec False 18 0,
          taxable_value = Dec False 20000 (- 2), tax_value = Dec False 3600 (- 2),
          cgst = Dec False 1800 (- 2), sgst = Dec False 1800 (- 2), igst = Dec False 0 (- 2),
          hsn = JStr ''1234'', hsn_warning = True, hsn_recommended = 6\<rparr>], \<lparr>total_taxable = Dec False 20000 (- 2), total_tax = Dec False 3600 (- 2),
        total_cgst = Dec False 1800 (- 2), total_sgst = Dec False 1800 (- 2),
        total_igst = Dec False 0 (- 2)\<rparr>)
   \<and> taxable_value (\<lparr>description = JStr [], qty = Dec False 2 0,
          rate = Dec False 100 0, tax_percent = Dec False 18 0,
          taxable_value = Dec False 20000 (- 2), tax_value = Dec False 3600 (- 2),
          cgst = Dec False 1800 (- 2), sgst = Dec False 1800 (- 2), igst = Dec False 0 (- 2),
          hsn = JStr ''1234'', hsn_warning = True, hsn_recommended = 6\<rparr>) \<noteq> QNaN
   \<and> tax_value (\<lparr>description = JStr [], qty = Dec False 2 0,
          rate = Dec False 100 0, tax_percent = Dec False 18 0,
          taxable_value = Dec False 20000 (- 2), tax_value = Dec False 3600 (- 2),
          cgst = Dec False 1800 (- 2), sgst = Dec False 1800 (- 2), igst = Dec False 0 (- 2),
          hsn = JStr ''1234'', hsn_warning = True, hsn_recommended = 6\<rparr>) \<noteq> QNaN
   \<and> (\<Sum>l\<leftarrow>[\<lparr>description = JStr [], qty = Dec False 2 0,
          rate = Dec False 100 0, tax_percent = Dec False 18 0,
          taxable_value = Dec False 20000 (- 2), tax_value = Dec False 3600 (- 2),
          cgst = Dec False 1800 (- 2), sgst = Dec False 1800 (- 2), igst = Dec False 0 (- 2),
          hsn = JStr ''1234'', hsn_warning = True, hsn_recommended = 6\<rparr>]. \<bar>dec_val (taxable_value l)\<bar> + \<bar>dec_val (tax_value l)\<bar>) < 10 ^ 26
   \<and> dec_val (total_taxable (\<lparr>total_taxable = Dec False 20000 (- 2), total_tax = Dec False 3600 (- 2),
        total_cgst = Dec False 1800 (- 2), total_sgst = Dec False 1800 (- 2),
        total_igst = Dec False 0 (- 2)\<rparr>)) = 200
   \<and> dec_val (total_tax (\<lparr>total_taxable = Dec False 20000 (- 2), total_tax = Dec False 3600 (- 2),
        total_cgst = Dec False 1800 (- 2), total_sgst = Dec False 1800 (- 2),
        total_igst = Dec False 0 (- 2)\<rparr>)) = 36
   \<and> dec_val (total_cgst (\<lparr>total_taxable = Dec False 20000 (- 2), total_tax = Dec False 3600 (- 2),
        total_cgst = Dec False 1800 (- 2), total_sgst = Dec False 1800 (- 2),
        total_igst = Dec False 0 (- 2)\<rparr>)) = 18
   \<and> dec_val (total_sgst (\<lparr>total_taxable = Dec False 20000 (- 2), total_tax = Dec False 3600 (- 2),
        total_cgst = Dec False 1800 (- 2), total_sgst = Dec False 1800 (- 2),
        total_igst = Dec False 0 (- 2)\<rparr>)) = 18
   \<and> dec_val (total_igst (\<lparr>total_taxable = Dec False 20000 (- 2), total_tax = Dec False 3600 (- 2),
        total_cgst = Dec False 1800 (- 2), total_sgst = Dec False 1800 (- 2),
        total_igst = Dec False 0 (- 2)\<rparr>)) = 0
   \<and> grand_total_of (\<lparr>total_taxable = Dec False 20000 (- 2), total_tax = Dec False 3600 (- 2),
        total_cgst = Dec False 1800 (- 2), total_sgst = Dec False 1800 (- 2),
        total_igst = Dec False 0 (- 2)\<rparr>) = Inr (Dec False 23600 (- 2))"
proof -
  have run: "process_items B2B INTRA [JDict [(''qty'', JInt 2), (''rate'', JInt 100), (''tax_rate'', JInt 18), (''hsn'', JStr ''1234'')]] ([], zero_totals) = Inr ([\<lparr>description = JStr [], qty = Dec False 2 0,
          rate = Dec False 100 0, tax_percent = Dec False 18 0,
          taxable_value = Dec False 20000 (- 2), tax_value = Dec False 3600 (- 2),
          cgst = Dec False 1800 (- 2), sgst = Dec False 1800 (- 2), igst = Dec False 0 (- 2),
          hsn = JStr ''1234'', hsn_warning = True, hsn_recommended = 6\<rparr>], \<lparr>total_taxable = Dec False 20000 (- 2), total_tax = Dec False 3600 (- 2),
        total_cgst = Dec False 1800 (- 2), total_sgst = Dec False 1800 (- 2),
        total_igst = Dec False 0 (- 2)\<rparr>)"
    by (simp add: view_eval dec_eval)
  have fin: "\<forall>l\<in>set [\<lparr>description = JStr [], qty = Dec False 2 0,
          rate = Dec False 100 0, tax_percent = Dec False 18 0,
          taxable_value = Dec False 20000 (- 2), tax_value = Dec False 3600 (- 2),
          cgst = Dec False 1800 (- 2), sgst = Dec False 1800 (- 2), igst = Dec False 0 (- 2),
          hsn = JStr ''1234'', hsn_warning = True, hsn_recommended = 6\<rparr>]. taxable_value l \<noteq> QNaN \<and> tax_value l \<noteq> QNaN"
    by simp
  have bnd: "(\<Sum>l\<leftarrow>[\<lparr>description = JStr [], qty = Dec False 2 0,
          rate = Dec False 100 0, tax_percent = Dec False 18 0,
          taxable_value = Dec False 20000 (- 2), tax_value = Dec False 3600 (- 2),
          cgst = Dec False 1800 (- 2), sgst = Dec False 1800 (- 2), igst = Dec False 0 (- 2),
          hsn = JStr ''1234'', hsn_warning = True, hsn_recommended = 6\<rparr>]. \<bar>dec_val (taxable_value l)\<bar> + \<bar>dec_val (tax_value l)\<bar>) < 10 ^ 26"
    by (simp add: dec_val_cents)
  have g: "grand_total_of (\<lparr>total_taxable = Dec False 20000 (- 2), total_tax = Dec False 3600 (- 2),
        total_cgst = Dec False 1800 (- 2), total_sgst = Dec False 1800 (- 2),
        total_igst = Dec False 0 (- 2)\<rparr>) = Inr (Dec False 23600 (- 2))"
    by (simp add: view_eval dec_eval)
  from totals_exact_sums [OF run fin bnd]
  have "dec_val (total_taxable (\<lparr>total_taxable = Dec False 20000 (- 2), total_tax = Dec False 3600 (- 2),
        total_cgst = Dec False 1800 (- 2), total_sgst = Dec False 1800 (- 2),
        total_igst = Dec False 0 (- 2)\<rparr>)) = (\<Sum>l\<leftarrow>[\<lparr>description = JStr [], qty = Dec False 2 0,
          rate = Dec False 100 0, tax_percent = Dec False 18 0,
          taxable_value = Dec False 20000 (- 2), tax_value = Dec False 3600 (- 2),
          cgst = Dec False 1800 (- 2), sgst = Dec False 1800 (- 2), igst = Dec False 0 (- 2),
          hsn = JStr ''1234'', hsn_warning = True, hsn_recommended = 6\<rparr>]. dec_val (taxable_value l))
     \<and> dec_val (total_tax (\<lparr>total_taxable = Dec False 20000 (- 2), total_tax = Dec False 3600 (- 2),
        total_cgst = Dec False 1800 (- 2), total_sgst = Dec False 1800 (- 2),
        total_igst = Dec False 0 (- 2)\<rparr>)) = (\<Sum>l\<leftarrow>[\<lparr>description = JStr [], qty = Dec False 2 0,
          rate = Dec False 100 0, tax_percent = Dec False 18 0,
          taxable_value = Dec False 20000 (- 2), tax_value = Dec False 3600 (- 2),
          cgst = Dec False 1800 (- 2), sgst = Dec False 1800 (- 2), igst = Dec False 0 (- 2),
          hsn = JStr ''1234'', hsn_warning = True, hsn_recommended = 6\<rparr>]. dec_val (tax_value l))
     \<and> dec_val (total_cgst (\<lparr>total_taxable = Dec False 20000 (- 2), total_tax = Dec False 3600 (- 2),
        total_cgst = Dec False 1800 (- 2), total_sgst = Dec False 1800 (- 2),
        total_igst = Dec False 0 (- 2)\<rparr>)) = (\<Sum>l\<leftarrow>[\<lparr>description = JStr [], qty = Dec False 2 0,
          rate = Dec False 100 0, tax_percent = Dec False 18 0,
          taxable_value = Dec False 20000 (- 2), tax_value = Dec False 3600 (- 2),
          cgst = Dec False 1800 (- 2), sgst = Dec False 1800 (- 2), igst = Dec False 0 (- 2),
          hsn = JStr ''1234'', hsn_warning = True, hsn_recommended = 6\<rparr>]. dec_val (cgst l))
     \<and> dec_val (total_sgst (\<lparr>total_taxable = Dec False 20000 (- 2), total_tax = Dec False 3600 (- 2),
        total_cgst = Dec False 1800 (- 2), total_sgst = Dec False 1800 (- 2),
        total_igst = Dec False 0 (- 2)\<rparr>)) = (\<Sum>l\<leftarrow>[\<lparr>description = JStr [], qty = Dec False 2 0,
          rate = Dec False 100 0, tax_percent = Dec False 18 0,
          taxable_value = Dec False 20000 (- 2), tax_value = Dec False 3600 (- 2),
          cgst = Dec False 1800 (- 2), sgst = Dec False 1800 (- 2), igst = Dec False 0 (- 2),
          hsn = JStr ''1234'', hsn_warning = True, hsn_recommended = 6\<rparr>]. dec_val (sgst l))
     \<and> dec_val (total_igst (\<lparr>total_taxable = Dec False 20000 (- 2), total_tax = Dec False 3600 (- 2),
        total_cgst = Dec False 1800 (- 2), total_sgst = Dec False 1800 (- 2),
        total_igst = Dec False 0 (- 2)\<rparr>)) = (\<Sum>l\<leftarrow>[\<lparr>description = JStr [], qty = Dec False 2 0,
          rate = Dec False 100 0, tax_percent = Dec False 18 0,
          taxable_value = Dec False 20000 (- 2), tax_value = Dec False 3600 (- 2),
          cgst = Dec False 1800 (- 2), sgst = Dec False 1800 (- 2), igst = Dec False 0 (- 2),
          hsn = JStr ''1234'', hsn_warning = True, hsn_recommended = 6\<rparr>]. dec_val (igst l))"
    by blast
  then have "dec_val (total_taxable (\<lparr>total_taxable = Dec False 20000 (- 2), total_tax = Dec False 3600 (- 2),
        total_cgst = Dec False 1800 (- 2), total_sgst = Dec False 1800 (- 2),
        total_igst = Dec False 0 (- 2)\<rparr>)) = 200
   \<and> dec_val (total_tax (\<lparr>total_taxable = Dec False 20000 (- 2), total_tax = Dec False 3600 (- 2),
        total_cgst = Dec False 1800 (- 2), total_sgst = Dec False 1800 (- 2),
        total_igst = Dec False 0 (- 2)\<rparr>)) = 36
   \<and> dec_val (total_cgst (\<lparr>total_taxable = Dec False 20000 (- 2), total_tax = Dec False 3600 (- 2),
        total_cgst = Dec False 1800 (- 2), total_sgst = Dec False 1800 (- 2),
        total_igst = Dec False 0 (- 2)\<rparr>)) = 18
   \<and> dec_val (total_sgst (\<lparr>total_taxable = Dec False 20000 (- 2), total_tax = Dec False 3600 (- 2),
        total_cgst = Dec False 1800 (- 2), total_sgst = Dec False 1800 (- 2),
        total_igst = Dec False 0 (- 2)\<rparr>)) = 18
   \<and> dec_val (total_igst (\<lparr>total_taxable = Dec False 20000 (- 2), total_tax = Dec False 3600 (- 2),
        total_cgst = Dec False 1800 (- 2), total_sgst = Dec False 1800 (- 2),
        total_igst = Dec False 0 (- 2)\<rparr>)) = 0"
    by (simp add: dec_val_cents)
  with run bnd g show ?thesis by simp
qed

subsection \<open>Inputs at which the context precision shows\<close>

lemma mul_eval:
  assumes "c * d < 10 ^ 28" "Etiny \<le> e + f" "e + f \<le> Etop"
  shows "dec_mul (Dec s c e) (Dec t d f) = Inr (Dec (s \<noteq> t) (c * d) (e + f))"
  using assms by (simp add: fix_id ndigits_le_iff)

lemma ndigits_eq:
  assumes "10 ^ k \<le> n" "n < 10 ^ Suc k"
  shows "ndigits n = Suc k"
proof -
  have "ndigits n \<le> Suc k" using assms(2) by (simp only: ndigits_le_iff [OF zero_less_Suc])
  moreover have "\<not> ndigits n \<le> k"
  proof (cases "k = 0")
    case True
    then show ?thesis using ndigits_pos [of n] by simp
  next
    case False
    then show ?thesis using assms(1) by (simp add: ndigits_le_iff)
  qed
  ultimately show ?thesis by simp
qed

lemma ndigits_gt_iff: "0 < k \<Longrightarrow> k < ndigits n \<longleftrightarrow> 10 ^ k \<le> n"
  using ndigits_le_iff [of k n] by auto

lemmas parse_eval = item_decimal_def obj_get_def dict_get_def py_or_def and_then_def
  decimal_of_str_def py_strip_def py_isspace_def split_sign_def parse_numeric_def parse_exp_def
  ascii_digit_def digits_to_nat_def lower_ascii_def Let_def



text \<open>
  On an intra-state invoice a tax value of 20000000000000000000000000.01 has a half of
  29 digits; the context rounds it half-even to 10000000000000000000000000.00, while the
  half rounded half-up to two decimals is 10000000000000000000000000.01.
\<close>

theorem cgst_half_even_counterexample:
  "invoice_viewer (Some ''27AAAA0000A1Z5'') (Some \<lparr>customer_gst = Some ''27BBBB1111B1Z6''\<rparr>)
     (Some (JDict [(''items'', JList [JDict
        [(''qty'', JStr ''20000000000000000000000000.01''), (''rate'', JInt 1), (''tax_rate'', JInt 100)]])]))
   = Inr \<lparr>breakdown =
        [\<lparr>description = JStr [], qty = Dec False 2000000000000000000000000001 (- 2),
          rate = Dec False 1 0, tax_percent = Dec False 100 0,
          taxable_value = Dec False 2000000000000000000000000001 (- 2),
          tax_value = Dec False 2000000000000000000000000001 (- 2),
          cgst = Dec False 1000000000000000000000000000 (- 2),
          sgst = Dec False 1000000000000000000000000000 (- 2), igst = Dec False 0 (- 2),
          hsn = JStr [], hsn_warning = True, hsn_recommended = 6\<rparr>],
        view_totals =
          \<lparr>total_taxable = Dec False 2000000000000000000000000001 (- 2),
            total_tax = Dec False 2000000000000000000000000001 (- 2),
            total_cgst = Dec False 1000000000000000000000000000 (- 2),
            total_sgst = Dec False 1000000000000000000000000000 (- 2),
            total_igst = Dec False 0 (- 2)\<rparr>,
        grand_total = Dec False 4000000000000000000000000002 (- 2),
        seller_gst = ''27AAAA0000A1Z5'', buyer_gst = ''27BBBB1111B1Z6'',
        invoice_kind = B2B, mode_of_tax = INTRA\<rparr>
   \<and> round_half_up (dec_val (Dec False 2000000000000000000000000001 (- 2)) / 2) 2
       = dec_val (Dec False 1000000000000000000000000001 (- 2))"
proof -
  let ?it = "JDict [(''qty'', JStr ''20000000000000000000000000.01''), (''rate'', JInt 1),
      (''tax_rate'', JInt 100)]"
  let ?data = "JDict [(''items'', JList [?it])]"
  let ?N = "Dec False 2000000000000000000000000001 (- 2)"
  let ?H = "Dec False 1000000000000000000000000000 (- 2)"
  let ?Z = "Dec False 0 (- 2)"
  have ds: "obj_get ?it ''description'' JNull = Inr JNull"
    and hs: "obj_get ?it ''hsn'' JNull = Inr JNull"
    and po: "py_or JNull (JStr []) = JStr []"
    by (simp_all add: obj_get_def dict_get_def py_or_def)
  have q: "item_decimal ?it ''qty'' 1 = Inr ?N"
    by (simp add: parse_eval)
  have r: "item_decimal ?it ''rate'' 0 = Inr (Dec False 1 0)"
    by (simp add: parse_eval)
  have tp: "item_decimal ?it ''tax_rate'' 0 = Inr (Dec False 100 0)"
    by (simp add: parse_eval)
  have tv: "taxable_of ?N (Dec False 1 0) = Inr ?N"
    by (simp add: taxable_of_def fix_money quantize_same ndigits_le_iff and_then_def)
  have nd: "ndigits 200000000000000000000000000100 = 30"
    by (simp add: ndigits_eq [of 29])
  have m: "dec_mul ?N (Dec False 100 0) = Inr (Dec False 2000000000000000000000000001 0)"
    by (simp add: dec_fix_def nd ctx_defs Let_def round_digits_def ndigits_gt_iff)
  have d: "dec_div (Dec False 2000000000000000000000000001 0) hundred = Inr ?N"
    by (simp add: div_hundred_strip ndigits_le_iff ctx_defs strip_zeros.simps)
  have tx: "tax_of ?N (Dec False 100 0) = Inr ?N"
    unfolding tax_of_def
    by (simp only: m and_then_def sum.case d) (simp add: quantize_same ndigits_le_iff)
  have sp: "gst_split INTRA ?N = Inr (?H, ?H, ?Z)"
    by (simp add: gst_split_def half_of_cents ndigits_le_iff half_cents_def and_then_def zero2_def)
  have a0: "dec_add ?Z ?H = Inr ?H" "dec_add ?Z ?N = Inr ?N"
    by (simp_all add: fix_money prec_def Let_def)
  have as: "add_split INTRA zero_totals ?H ?H ?Z
      = Inr \<lparr>total_taxable = ?Z, total_tax = ?Z, total_cgst = ?H, total_sgst = ?H,
             total_igst = ?Z\<rparr>"
    by (simp add: add_split_def zero_totals_def zero2_def fix_money prec_def Let_def and_then_def)
  have hc: "hsn_check (JStr []) B2B = Inr (True, 6)"
    by (simp add: hsn_check_def hsn_digits_of_def recommended_of_def and_then_def)
  have lb: "loop_body B2B INTRA ([], zero_totals) ?it = Inr
     ([\<lparr>description = JStr [], qty = ?N,
          rate = Dec False 1 0, tax_percent = Dec False 100 0,
          taxable_value = ?N, tax_value = ?N, cgst = ?H, sgst = ?H, igst = ?Z,
          hsn = JStr [], hsn_warning = True, hsn_recommended = 6\<rparr>],
      \<lparr>total_taxable = ?N, total_tax = ?N, total_cgst = ?H, total_sgst = ?H,
            total_igst = ?Z\<rparr>)"
    by (simp add: loop_body_def ds hs po q r tp tv tx sp as hc fix_money prec_def Let_def
        and_then_def del: One_nat_def)
  have g: "grand_total_of \<lparr>total_taxable = ?N, total_tax = ?N, total_cgst = ?H,
        total_sgst = ?H, total_igst = ?Z\<rparr>
      = Inr (Dec False 4000000000000000000000000002 (- 2))"
    by (simp add: grand_total_of_def fix_money Let_def signed_def quantize_same ndigits_le_iff
        and_then_def)
  have b: "buyer_gst_of (Some \<lparr>customer_gst = Some ''27BBBB1111B1Z6''\<rparr>) ?data
      = Inr ''27BBBB1111B1Z6''"
    by (simp add: buyer_gst_of_def linked_gst_def py_strip_def py_isspace_def)
  have s: "seller_gst_of (Some ''27AAAA0000A1Z5'') = ''27AAAA0000A1Z5''"
    by (simp add: seller_gst_of_def py_strip_def py_isspace_def)
  have ty: "invoice_type_of ''27BBBB1111B1Z6'' = B2B"
    "tax_mode_of ''27AAAA0000A1Z5'' ''27BBBB1111B1Z6'' = INTRA"
    by (simp_all add: invoice_type_of_def tax_mode_of_def gst_state_def str_isdigit_def
        py_isdigit_def ascii_digit_def)
  have its: "items_of ?data = Inr (JList [?it])"
    by (simp add: items_of_def obj_get_def dict_get_def py_or_def and_then_def)
  have v: "invoice_viewer (Some ''27AAAA0000A1Z5'') (Some \<lparr>customer_gst = Some ''27BBBB1111B1Z6''\<rparr>)
     (Some ?data) = Inr \<lparr>breakdown =
        [\<lparr>description = JStr [], qty = ?N,
          rate = Dec False 1 0, tax_percent = Dec False 100 0,
          taxable_value = ?N, tax_value = ?N, cgst = ?H, sgst = ?H, igst = ?Z,
          hsn = JStr [], hsn_warning = True, hsn_recommended = 6\<rparr>],
        view_totals =
          \<lparr>total_taxable = ?N, total_tax = ?N, total_cgst = ?H, total_sgst = ?H,
            total_igst = ?Z\<rparr>,
        grand_total = Dec False 4000000000000000000000000002 (- 2),
        seller_gst = ''27AAAA0000A1Z5'', buyer_gst = ''27BBBB1111B1Z6'',
        invoice_kind = B2B, mode_of_tax = INTRA\<rparr>"
    by (simp add: invoice_viewer_def invoice_data_of_def b s ty its lb g and_then_def
        del: One_nat_def)
  have h: "round_half_up (dec_val ?N / 2) 2
       = dec_val (Dec False 1000000000000000000000000001 (- 2))"
    by (simp add: round_half_up_half)
  from v h show ?thesis by (simp del: One_nat_def)
qed

text \<open>
  Four lines with taxable values of plus and minus 99999999999999999999999999.99: the
  running total passes 28 digits and is rounded twice, so the total taxable value ends
  at 0.01 although the taxable values of the lines add up to zero.
\<close>

theorem totals_rounded_counterexample:
  "invoice_viewer None None (Some (JDict [(''items'', JList [JDict [(''qty'', JStr ''99999999999999999999999999.99''), (''rate'', JInt 1)], JDict [(''qty'', JStr ''99999999999999999999999999.99''), (''rate'', JInt 1)], JDict [(''qty'', JStr ''-99999999999999999999999999.99''), (''rate'', JInt 1)], JDict [(''qty'', JStr ''-99999999999999999999999999.99''), (''rate'', JInt 1)]])])) = Inr \<lparr>breakdown = [\<lparr>description = JStr [], qty = Dec False 9999999999999999999999999999 (- 2),
          rate = Dec False 1 0, tax_percent = Dec False 0 0,
          taxable_value = Dec False 9999999999999999999999999999 (- 2), tax_value = Dec False 0 (- 2),
          cgst = Dec False 0 (- 2), sgst = Dec False 0 (- 2), igst = Dec False 0 (- 2),
          hsn = JStr [], hsn_warning = True, hsn_recommended = 4\<rparr>, \<lparr>description = JStr [], qty = Dec False 9999999999999999999999999999 (- 2),
          rate = Dec False 1 0, tax_percent = Dec False 0 0,
          taxable_value = Dec False 9999999999999999999999999999 (- 2), tax_value = Dec False 0 (- 2),
          cgst = Dec False 0 (- 2), sgst = Dec False 0 (- 2), igst = Dec False 0 (- 2),
          hsn = JStr [], hsn_warning = True, hsn_recommended = 4\<rparr>, \<lparr>description = JStr [], qty = Dec True 9999999999999999999999999999 (- 2),
          rate = Dec False 1 0, tax_percent = Dec False 0 0,
          taxable_value = Dec True 9999999999999999999999999999 (- 2), tax_value = Dec True 0 (- 2),
          cgst = Dec False 0 (- 2), sgst = Dec False 0 (- 2), igst = Dec True 0 (- 2),
          hsn = JStr [], hsn_warning = True, hsn_recommended = 4\<rparr>, \<lparr>description = JStr [], qty = Dec True 9999999999999999999999999999 (- 2),
          rate = Dec False 1 0, tax_percent = Dec False 0 0,
          taxable_value = Dec True 9999999999999999999999999999 (- 2), tax_value = Dec True 0 (- 2),
          cgst = Dec False 0 (- 2), sgst = Dec False 0 (- 2), igst = Dec True 0 (- 2),
          hsn = JStr [], hsn_warning = True, hsn_recommended = 4\<rparr>],
        view_totals = \<lparr>total_taxable = Dec False 1 (- 2), total_tax = Dec False 0 (- 2),
        total_cgst = Dec False 0 (- 2), total_sgst = Dec False 0 (- 2),
        total_igst = Dec False 0 (- 2)\<rparr>,
        grand_total = Dec False 1 (- 2), seller_gst = [], buyer_gst = [],
        invoice_kind = B2C, mode_of_tax = INTER\<rparr>
   \<and> dec_val (Dec False 9999999999999999999999999999 (- 2)) + dec_val (Dec False 9999999999999999999999999999 (- 2))
       + dec_val (Dec True 9999999999999999999999999999 (- 2)) + dec_val (Dec True 9999999999999999999999999999 (- 2)) = 0
   \<and> dec_val (Dec False 1 (- 2)) = 1 / 100"
proof -
  let ?P = "JDict [(''qty'', JStr ''99999999999999999999999999.99''), (''rate'', JInt 1)]"
  let ?M = "JDict [(''qty'', JStr ''-99999999999999999999999999.99''), (''rate'', JInt 1)]"
  let ?Z = "Dec False 0 (- 2)"
  have ds: "obj_get ?P ''description'' JNull = Inr JNull" "obj_get ?M ''description'' JNull = Inr JNull"
    and hs: "obj_get ?P ''hsn'' JNull = Inr JNull" "obj_get ?M ''hsn'' JNull = Inr JNull"
    and po: "py_or JNull (JStr []) = JStr []"
    by (simp_all add: obj_get_def dict_get_def py_or_def)
  have q: "item_decimal ?P ''qty'' 1 = Inr (Dec False 9999999999999999999999999999 (- 2))"
    "item_decimal ?M ''qty'' 1 = Inr (Dec True 9999999999999999999999999999 (- 2))"
    by (simp_all add: parse_eval)
  have r: "item_decimal ?P ''rate'' 0 = Inr (Dec False 1 0)"
    "item_decimal ?M ''rate'' 0 = Inr (Dec False 1 0)"
    by (simp_all add: parse_eval)
  have tp: "item_decimal ?P ''tax_rate'' 0 = Inr (Dec False 0 0)"
    "item_decimal ?M ''tax_rate'' 0 = Inr (Dec False 0 0)"
    by (simp_all add: parse_eval)
  have tv: "taxable_of (Dec False 9999999999999999999999999999 (- 2)) (Dec False 1 0) = Inr (Dec False 9999999999999999999999999999 (- 2))"
    "taxable_of (Dec True 9999999999999999999999999999 (- 2)) (Dec False 1 0) = Inr (Dec True 9999999999999999999999999999 (- 2))"
    by (simp_all add: taxable_of_def fix_money quantize_same ndigits_le_iff and_then_def)
  have tx: "tax_of (Dec False 9999999999999999999999999999 (- 2)) (Dec False 0 0) = Inr (Dec False 0 (- 2))"
    "tax_of (Dec True 9999999999999999999999999999 (- 2)) (Dec False 0 0) = Inr (Dec True 0 (- 2))"
    by (simp_all add: tax_of_def fix_money hundred_def quantize_same and_then_def)
  have sp: "gst_split INTER (Dec False 0 (- 2)) = Inr (?Z, ?Z, Dec False 0 (- 2))"
    "gst_split INTER (Dec True 0 (- 2)) = Inr (?Z, ?Z, Dec True 0 (- 2))"
    by (simp_all add: gst_split_def zero2_def)
  have hc: "hsn_check (JStr []) B2C = Inr (True, 4)"
    by (simp add: hsn_check_def hsn_digits_of_def recommended_of_def and_then_def)
  have z: "dec_add ?Z (Dec False 0 (- 2)) = Inr ?Z" "dec_add ?Z (Dec True 0 (- 2)) = Inr ?Z"
    by (simp_all add: fix_money)
  have a1: "dec_add ?Z (Dec False 9999999999999999999999999999 (- 2)) = Inr (Dec False 9999999999999999999999999999 (- 2))"
    by (simp add: fix_money prec_def Let_def)
  have n2: "ndigits 19999999999999999999999999998 = 29"
    and n3: "ndigits 10000000000000000000000000001 = 29"
    by (simp_all add: ndigits_eq [of 28])
  have a2: "dec_add (Dec False 9999999999999999999999999999 (- 2)) (Dec False 9999999999999999999999999999 (- 2)) = Inr (Dec False 2000000000000000000000000000 (- 1))"
    by (simp add: signed_def Let_def dec_fix_def n2 ctx_defs round_digits_def ndigits_gt_iff)
  have a3: "dec_add (Dec False 2000000000000000000000000000 (- 1)) (Dec True 9999999999999999999999999999 (- 2)) = Inr (Dec False 1000000000000000000000000000 (- 1))"
    by (simp add: signed_def Let_def dec_fix_def n3 ctx_defs round_digits_def ndigits_gt_iff)
  have a4: "dec_add (Dec False 1000000000000000000000000000 (- 1)) (Dec True 9999999999999999999999999999 (- 2)) = Inr (Dec False 1 (- 2))"
    by (simp add: signed_def Let_def fix_money)
  have as: "\<And>t x. add_split INTER t ?Z ?Z x = and_then (dec_add (total_igst t) x) (\<lambda>ti. Inr (t\<lparr>total_igst := ti\<rparr>))"
    by (simp add: add_split_def)
  have lb1: "loop_body B2C INTER ([], zero_totals) ?P = Inr ([\<lparr>description = JStr [], qty = Dec False 9999999999999999999999999999 (- 2),
          rate = Dec False 1 0, tax_percent = Dec False 0 0,
          taxable_value = Dec False 9999999999999999999999999999 (- 2), tax_value = Dec False 0 (- 2),
          cgst = Dec False 0 (- 2), sgst = Dec False 0 (- 2), igst = Dec False 0 (- 2),
          hsn = JStr [], hsn_warning = True, hsn_recommended = 4\<rparr>], \<lparr>total_taxable = Dec False 9999999999999999999999999999 (- 2), total_tax = Dec False 0 (- 2),
        total_cgst = Dec False 0 (- 2), total_sgst = Dec False 0 (- 2),
        total_igst = Dec False 0 (- 2)\<rparr>)"
    by (simp add: loop_body_def ds hs po q r tp tv tx sp as hc z a1 zero_totals_def zero2_def
        and_then_def del: dec_add.simps One_nat_def)
  have lb2: "loop_body B2C INTER ([\<lparr>description = JStr [], qty = Dec False 9999999999999999999999999999 (- 2),
          rate = Dec False 1 0, tax_percent = Dec False 0 0,
          taxable_value = Dec False 9999999999999999999999999999 (- 2), tax_value = Dec False 0 (- 2),
          cgst = Dec False 0 (- 2), sgst = Dec False 0 (- 2), igst = Dec False 0 (- 2),
          hsn = JStr [], hsn_warning = True, hsn_recommended = 4\<rparr>], \<lparr>total_taxable = Dec False 9999999999999999999999999999 (- 2), total_tax = Dec False 0 (- 2),
        total_cgst = Dec False 0 (- 2), total_sgst = Dec False 0 (- 2),
        total_igst = Dec False 0 (- 2)\<rparr>) ?P = Inr ([\<lparr>description = JStr [], qty = Dec False 9999999999999999999999999999 (- 2),
          rate = Dec False 1 0, tax_percent = Dec False 0 0,
          taxable_value = Dec False 9999999999999999999999999999 (- 2), tax_value = Dec False 0 (- 2),
          cgst = Dec False 0 (- 2), sgst = Dec False 0 (- 2), igst = Dec False 0 (- 2),
          hsn = JStr [], hsn_warning = True, hsn_recommended = 4\<rparr>, \<lparr>description = JStr [], qty = Dec False 9999999999999999999999999999 (- 2),
          rate = Dec False 1 0, tax_percent = Dec False 0 0,
          taxable_value = Dec False 9999999999999999999999999999 (- 2), tax_value = Dec False 0 (- 2),
          cgst = Dec False 0 (- 2), sgst = Dec False 0 (- 2), igst = Dec False 0 (- 2),
          hsn = JStr [], hsn_warning = True, hsn_recommended = 4\<rparr>], \<lparr>total_taxable = Dec False 2000000000000000000000000000 (- 1), total_tax = Dec False 0 (- 2),
        total_cgst = Dec False 0 (- 2), total_sgst = Dec False 0 (- 2),
        total_igst = Dec False 0 (- 2)\<rparr>)"
    by (simp add: loop_body_def ds hs po q r tp tv tx sp as hc z a2
        and_then_def del: dec_add.simps One_nat_def)
  have lb3: "loop_body B2C INTER ([\<lparr>description = JStr [], qty = Dec False 9999999999999999999999999999 (- 2),
          rate = Dec False 1 0, tax_percent = Dec False 0 0,
          taxable_value = Dec False 9999999999999999999999999999 (- 2), tax_value = Dec False 0 (- 2),
          cgst = Dec False 0 (- 2), sgst = Dec False 0 (- 2), igst = Dec False 0 (- 2),
          hsn = JStr [], hsn_warning = True, hsn_recommended = 4\<rparr>, \<lparr>description = JStr [], qty = Dec False 9999999999999999999999999999 (- 2),
          rate = Dec False 1 0, tax_percent = Dec False 0 0,
          taxable_value = Dec False 9999999999999999999999999999 (- 2), tax_value = Dec False 0 (- 2),
          cgst = Dec False 0 (- 2), sgst = Dec False 0 (- 2), igst = Dec False 0 (- 2),
          hsn = JStr [], hsn_warning = True, hsn_recommended = 4\<rparr>], \<lparr>total_taxable = Dec False 2000000000000000000000000000 (- 1), total_tax = Dec False 0 (- 2),
        total_cgst = Dec False 0 (- 2), total_sgst = Dec False 0 (- 2),
        total_igst = Dec False 0 (- 2)\<rparr>) ?M = Inr ([\<lparr>description = JStr [], qty = Dec False 9999999999999999999999999999 (- 2),
          rate = Dec False 1 0, tax_percent = Dec False 0 0,
          taxable_value = Dec False 9999999999999999999999999999 (- 2), tax_value = Dec False 0 (- 2),
          cgst = Dec False 0 (- 2), sgst = Dec False 0 (- 2), igst = Dec False 0 (- 2),
          hsn = JStr [], hsn_warning = True, hsn_recommended = 4\<rparr>, \<lparr>description = JStr [], qty = Dec False 9999999999999999999999999999 (- 2),
          rate = Dec False 1 0, tax_percent = Dec False 0 0,
          taxable_value = Dec False 9999999999999999999999999999 (- 2), tax_value = Dec False 0 (- 2),
          cgst = Dec False 0 (- 2), sgst = Dec False 0 (- 2), igst = Dec False 0 (- 2),
          hsn = JStr [], hsn_warning = True, hsn_recommended = 4\<rparr>, \<lparr>description = JStr [], qty = Dec True 9999999999999999999999999999 (- 2),
          rate = Dec False 1 0, tax_percent = Dec False 0 0,
          taxable_value = Dec True 9999999999999999999999999999 (- 2), tax_value = Dec True 0 (- 2),
          cgst = Dec False 0 (- 2), sgst = Dec False 0 (- 2), igst = Dec True 0 (- 2),
          hsn = JStr [], hsn_warning = True, hsn_recommended = 4\<rparr>], \<lparr>total_taxable = Dec False 1000000000000000000000000000 (- 1), total_tax = Dec False 0 (- 2),
        total_cgst = Dec False 0 (- 2), total_sgst = Dec False 0 (- 2),
        total_igst = Dec False 0 (- 2)\<rparr>)"
    by (simp add: loop_body_def ds hs po q r tp tv tx sp as hc z a3
        and_then_def del: dec_add.simps One_nat_def)
  have lb4: "loop_body B2C INTER ([\<lparr>description = JStr [], qty = Dec False 9999999999999999999999999999 (- 2),
          rate = Dec False 1 0, tax_percent = Dec False 0 0,
          taxable_value = Dec False 9999999999999999999999999999 (- 2), tax_value = Dec False 0 (- 2),
          cgst = Dec False 0 (- 2), sgst = Dec False 0 (- 2), igst = Dec False 0 (- 2),
          hsn = JStr [], hsn_warning = True, hsn_recommended = 4\<rparr>, \<lparr>description = JStr [], qty = Dec False 9999999999999999999999999999 (- 2),
          rate = Dec False 1 0, tax_percent = Dec False 0 0,
          taxable_value = Dec False 9999999999999999999999999999 (- 2), tax_value = Dec False 0 (- 2),
          cgst = Dec False 0 (- 2), sgst = Dec False 0 (- 2), igst = Dec False 0 (- 2),
          hsn = JStr [], hsn_warning = True, hsn_recommended = 4\<rparr>, \<lparr>description = JStr [], qty = Dec True 9999999999999999999999999999 (- 2),
          rate = Dec False 1 0, tax_percent = Dec False 0 0,
          taxable_value = Dec True 9999999999999999999999999999 (- 2), tax_value = Dec True 0 (- 2),
          cgst = Dec False 0 (- 2), sgst = Dec False 0 (- 2), igst = Dec True 0 (- 2),
          hsn = JStr [], hsn_warning = True, hsn_recommended = 4\<rparr>], \<lparr>total_taxable = Dec False 1000000000000000000000000000 (- 1), total_tax = Dec False 0 (- 2),
        total_cgst = Dec False 0 (- 2), total_sgst = Dec False 0 (- 2),
        total_igst = Dec False 0 (- 2)\<rparr>) ?M = Inr ([\<lparr>description = JStr [], qty = Dec False 9999999999999999999999999999 (- 2),
          rate = Dec False 1 0, tax_percent = Dec False 0 0,
          taxable_value = Dec False 9999999999999999999999999999 (- 2), tax_value = Dec False 0 (- 2),
          cgst = Dec False 0 (- 2), sgst = Dec False 0 (- 2), igst = Dec False 0 (- 2),
          hsn = JStr [], hsn_warning = True, hsn_recommended = 4\<rparr>, \<lparr>description = JStr [], qty = Dec False 9999999999999999999999999999 (- 2),
          rate = Dec False 1 0, tax_percent = Dec False 0 0,
          taxable_value = Dec False 9999999999999999999999999999 (- 2), tax_value = Dec False 0 (- 2),
          cgst = Dec False 0 (- 2), sgst = Dec False 0 (- 2), igst = Dec False 0 (- 2),
          hsn = JStr [], hsn_warning = True, hsn_recommended = 4\<rparr>, \<lparr>description = JStr [], qty = Dec True 9999999999999999999999999999 (- 2),
          rate = Dec False 1 0, tax_percent = Dec False 0 0,
          taxable_value = Dec True 9999999999999999999999999999 (- 2), tax_value = Dec True 0 (- 2),
          cgst = Dec False 0 (- 2), sgst = Dec False 0 (- 2), igst = Dec True 0 (- 2),
          hsn = JStr [], hsn_warning = True, hsn_recommended = 4\<rparr>, \<lparr>description = JStr [], qty = Dec True 9999999999999999999999999999 (- 2),
          rate = Dec False 1 0, tax_percent = Dec False 0 0,
          taxable_value = Dec True 9999999999999999999999999999 (- 2), tax_value = Dec True 0 (- 2),
          cgst = Dec False 0 (- 2), sgst = Dec False 0 (- 2), igst = Dec True 0 (- 2),
          hsn = JStr [], hsn_warning = True, hsn_recommended = 4\<rparr>], \<lparr>total_taxable = Dec False 1 (- 2), total_tax = Dec False 0 (- 2),
        total_cgst = Dec False 0 (- 2), total_sgst = Dec False 0 (- 2),
        total_igst = Dec False 0 (- 2)\<rparr>)"
    by (simp add: loop_body_def ds hs po q r tp tv tx sp as hc z a4
        and_then_def del: dec_add.simps One_nat_def)
  have run: "process_items B2C INTER [?P, ?P, ?M, ?M] ([], zero_totals)
      = Inr ([\<lparr>description = JStr [], qty = Dec False 9999999999999999999999999999 (- 2),
          rate = Dec False 1 0, tax_percent = Dec False 0 0,
          taxable_value = Dec False 9999999999999999999999999999 (- 2), tax_value = Dec False 0 (- 2),
          cgst = Dec False 0 (- 2), sgst = Dec False 0 (- 2), igst = Dec False 0 (- 2),
          hsn = JStr [], hsn_warning = True, hsn_recommended = 4\<rparr>, \<lparr>description = JStr [], qty = Dec False 9999999999999999999999999999 (- 2),
          rate = Dec False 1 0, tax_percent = Dec False 0 0,
          taxable_value = Dec False 9999999999999999999999999999 (- 2), tax_value = Dec False 0 (- 2),
          cgst = Dec False 0 (- 2), sgst = Dec False 0 (- 2), igst = Dec False 0 (- 2),
          hsn = JStr [], hsn_warning = True, hsn_recommended = 4\<rparr>, \<lparr>description = JStr [], qty = Dec True 9999999999999999999999999999 (- 2),
          rate = Dec False 1 0, tax_percent = Dec False 0 0,
          taxable_value = Dec True 9999999999999999999999999999 (- 2), tax_value = Dec True 0 (- 2),
          cgst = Dec False 0 (- 2), sgst = Dec False 0 (- 2), igst = Dec True 0 (- 2),
          hsn = JStr [], hsn_warning = True, hsn_recommended = 4\<rparr>, \<lparr>description = JStr [], qty = Dec True 9999999999999999999999999999 (- 2),
          rate = Dec False 1 0, tax_percent = Dec False 0 0,
          taxable_value = Dec True 9999999999999999999999999999 (- 2), tax_value = Dec True 0 (- 2),
          cgst = Dec False 0 (- 2), sgst = Dec False 0 (- 2), igst = Dec True 0 (- 2),
          hsn = JStr [], hsn_warning = True, hsn_recommended = 4\<rparr>], \<lparr>total_taxable = Dec False 1 (- 2), total_tax = Dec False 0 (- 2),
        total_cgst = Dec False 0 (- 2), total_sgst = Dec False 0 (- 2),
        total_igst = Dec False 0 (- 2)\<rparr>)"
    by (simp add: lb1 lb2 lb3 lb4 and_then_def del: One_nat_def)
  have g: "grand_total_of (\<lparr>total_taxable = Dec False 1 (- 2), total_tax = Dec False 0 (- 2),
        total_cgst = Dec False 0 (- 2), total_sgst = Dec False 0 (- 2),
        total_igst = Dec False 0 (- 2)\<rparr>) = Inr (Dec False 1 (- 2))"
    by (simp add: grand_total_of_def fix_money prec_def Let_def quantize_same ndigits_le_iff
        and_then_def)
  have b: "buyer_gst_of None (JDict [(''items'', JList [JDict [(''qty'', JStr ''99999999999999999999999999.99''), (''rate'', JInt 1)], JDict [(''qty'', JStr ''99999999999999999999999999.99''), (''rate'', JInt 1)], JDict [(''qty'', JStr ''-99999999999999999999999999.99''), (''rate'', JInt 1)], JDict [(''qty'', JStr ''-99999999999999999999999999.99''), (''rate'', JInt 1)]])]) = Inr []"
    by (simp add: buyer_gst_of_def linked_gst_def obj_get_def dict_get_def py_strip_def
        and_then_def)
  have s: "seller_gst_of None = []"
    by (simp add: seller_gst_of_def py_strip_def)
  have ty: "invoice_type_of [] = B2C" "tax_mode_of [] [] = INTER"
    by (simp_all add: invoice_type_of_def tax_mode_of_def gst_state_def)
  have its: "items_of (JDict [(''items'', JList [JDict [(''qty'', JStr ''99999999999999999999999999.99''), (''rate'', JInt 1)], JDict [(''qty'', JStr ''99999999999999999999999999.99''), (''rate'', JInt 1)], JDict [(''qty'', JStr ''-99999999999999999999999999.99''), (''rate'', JInt 1)], JDict [(''qty'', JStr ''-99999999999999999999999999.99''), (''rate'', JInt 1)]])]) = Inr (JList [?P, ?P, ?M, ?M])"
    by (simp add: items_of_def obj_get_def dict_get_def py_or_def and_then_def)
  have v: "invoice_viewer None None (Some (JDict [(''items'', JList [JDict [(''qty'', JStr ''99999999999999999999999999.99''), (''rate'', JInt 1)], JDict [(''qty'', JStr ''99999999999999999999999999.99''), (''rate'', JInt 1)], JDict [(''qty'', JStr ''-99999999999999999999999999.99''), (''rate'', JInt 1)], JDict [(''qty'', JStr ''-99999999999999999999999999.99''), (''rate'', JInt 1)]])])) = Inr \<lparr>breakdown = [\<lparr>description = JStr [], qty = Dec False 9999999999999999999999999999 (- 2),
          rate = Dec False 1 0, tax_percent = Dec False 0 0,
          taxable_value = Dec False 9999999999999999999999999999 (- 2), tax_value = Dec False 0 (- 2),
          cgst = Dec False 0 (- 2), sgst = Dec False 0 (- 2), igst = Dec False 0 (- 2),
          hsn = JStr [], hsn_warning = True, hsn_recommended = 4\<rparr>, \<lparr>description = JStr [], qty = Dec False 9999999999999999999999999999 (- 2),
          rate = Dec False 1 0, tax_percent = Dec False 0 0,
          taxable_value = Dec False 9999999999999999999999999999 (- 2), tax_value = Dec False 0 (- 2),
          cgst = Dec False 0 (- 2), sgst = Dec False 0 (- 2), igst = Dec False 0 (- 2),
          hsn = JStr [], hsn_warning = True, hsn_recommended = 4\<rparr>, \<lparr>description = JStr [], qty = Dec True 9999999999999999999999999999 (- 2),
          rate = Dec False 1 0, tax_percent = Dec False 0 0,
          taxable_value = Dec True 9999999999999999999999999999 (- 2), tax_value = Dec True 0 (- 2),
          cgst = Dec False 0 (- 2), sgst = Dec False 0 (- 2), igst = Dec True 0 (- 2),
          hsn = JStr [], hsn_warning = True, hsn_recommended = 4\<rparr>, \<lparr>description = JStr [], qty = Dec True 9999999999999999999999999999 (- 2),
          rate = Dec False 1 0, tax_percent = Dec False 0 0,
          taxable_value = Dec True 9999999999999999999999999999 (- 2), tax_value = Dec True 0 (- 2),
          cgst = Dec False 0 (- 2), sgst = Dec False 0 (- 2), igst = Dec True 0 (- 2),
          hsn = JStr [], hsn_warning = True, hsn_recommended = 4\<rparr>],
        view_totals = \<lparr>total_taxable = Dec False 1 (- 2), total_tax = Dec False 0 (- 2),
        total_cgst = Dec False 0 (- 2), total_sgst = Dec False 0 (- 2),
        total_igst = Dec False 0 (- 2)\<rparr>,
        grand_total = Dec False 1 (- 2), seller_gst = [], buyer_gst = [],
        invoice_kind = B2C, mode_of_tax = INTER\<rparr>"
    by (simp add: invoice_viewer_def invoice_data_of_def b s ty its run g and_then_def
        del: One_nat_def process_items.simps)
  have e: "dec_val (Dec False 9999999999999999999999999999 (- 2)) + dec_val (Dec False 9999999999999999999999999999 (- 2))
       + dec_val (Dec True 9999999999999999999999999999 (- 2)) + dec_val (Dec True 9999999999999999999999999999 (- 2)) = 0
   \<and> dec_val (Dec False 1 (- 2)) = 1 / 100"
    by (simp add: dec_val_cents)
  from v e show ?thesis by (simp del: One_nat_def)
qed

subsection \<open>Missing and falsy numeric fields\<close>


lemma item_decimal_falsy:
  assumes "\<not> truthy (dict_get kvs k JNull)"
  shows "item_decimal (JDict kvs) k d = Inr (Dec (d < 0) (nat \<bar>d\<bar>) 0)"
  using assms by (simp add: item_decimal_def obj_get_def and_then_def py_or_def)

lemma item_decimal_truthy:
  assumes "truthy (dict_get kvs k JNull)"
  shows "item_decimal (JDict kvs) k d = Decimal_str (dict_get kvs k JNull)"
  using assms by (simp add: item_decimal_def obj_get_def and_then_def py_or_def)

lemma loop_body_fields:
  assumes "loop_body itype mode (bd, tot) it = Inr (bd', tot')"
  shows "\<exists>l. bd' = bd @ [l]
           \<and> item_decimal it ''qty'' 1 = Inr (qty l)
           \<and> item_decimal it ''rate'' 0 = Inr (rate l)
           \<and> item_decimal it ''tax_rate'' 0 = Inr (tax_percent l)
           \<and> taxable_of (qty l) (rate l) = Inr (taxable_value l)
           \<and> tax_of (taxable_value l) (tax_percent l) = Inr (tax_value l)"
  using assms
  by (auto simp add: loop_body_def and_then_def split: sum.splits prod.splits)

lemma zero_line_values:
  "taxable_of (Dec False 1 0) (Dec False 0 0) = Inr (Dec False 0 (- 2))"
  "tax_of (Dec False 0 (- 2)) (Dec False 0 0) = Inr (Dec False 0 (- 2))"
  "gst_split mode (Dec False 0 (- 2)) = Inr (Dec False 0 (- 2), Dec False 0 (- 2), Dec False 0 (- 2))"
  "dec_add (Dec False 0 (- 2)) (Dec False 0 (- 2)) = Inr (Dec False 0 (- 2))"
proof -
  show "taxable_of (Dec False 1 0) (Dec False 0 0) = Inr (Dec False 0 (- 2))"
    by (simp add: taxable_of_def and_then_def fix_id ctx_defs cent_def)
  show "tax_of (Dec False 0 (- 2)) (Dec False 0 0) = Inr (Dec False 0 (- 2))"
    by (simp add: tax_of_def and_then_def fix_money hundred_def cent_def ctx_defs)
  have "half_of (Dec False 0 (- 2)) = Inr (Dec False 0 (- 2))"
    using half_of_cents [of 0 False] by (simp add: half_cents_def)
  then show "gst_split mode (Dec False 0 (- 2))
      = Inr (Dec False 0 (- 2), Dec False 0 (- 2), Dec False 0 (- 2))"
    by (cases mode) (simp_all add: gst_split_def and_then_def zero2_def)
  show "dec_add (Dec False 0 (- 2)) (Dec False 0 (- 2)) = Inr (Dec False 0 (- 2))"
    by (simp add: fix_money)
qed

text \<open>
  C1, as the code has it.  A numeric field is read as
  \<^verbatim>\<open>Decimal(str(it.get(key) or default))\<close>.  When the stored value is missing, null
  or otherwise falsy the default is read (1 for \<^verbatim>\<open>qty\<close>, 0 for \<^verbatim>\<open>rate\<close> and
  \<^verbatim>\<open>tax_rate\<close>); when it is truthy the value itself is converted, with whatever
  \<^verbatim>\<open>Decimal\<close> answers for its text, an error included.  An item whose three fields are
  all falsy gives one line with quantity 1, rate 0, tax percent 0 and amounts 0.00, and
  leaves the totals at zero, without an error.
\<close>

theorem numeric_field_defaults:
  "(\<not> truthy (dict_get kvs k JNull) \<longrightarrow>
      item_decimal (JDict kvs) k d = Inr (Dec (d < 0) (nat \<bar>d\<bar>) 0))
   \<and> (truthy (dict_get kvs k JNull) \<longrightarrow>
      item_decimal (JDict kvs) k d = Decimal_str (dict_get kvs k JNull))
   \<and> (\<not> truthy (dict_get kvs ''qty'' JNull) \<and> \<not> truthy (dict_get kvs ''rate'' JNull)
        \<and> \<not> truthy (dict_get kvs ''tax_rate'' JNull)
        \<and> py_or (dict_get kvs ''hsn'' JNull) (JStr []) = JStr h \<longrightarrow>
      (\<exists>ln. loop_body itype mode ([], zero_totals) (JDict kvs) = Inr ([ln], zero_totals)
         \<and> qty ln = Dec False 1 0 \<and> rate ln = Dec False 0 0 \<and> tax_percent ln = Dec False 0 0
         \<and> taxable_value ln = Dec False 0 (- 2) \<and> tax_value ln = Dec False 0 (- 2)))"
proof -
  have line: "\<exists>ln. loop_body itype mode ([], zero_totals) (JDict kvs) = Inr ([ln], zero_totals)
         \<and> qty ln = Dec False 1 0 \<and> rate ln = Dec False 0 0 \<and> tax_percent ln = Dec False 0 0
         \<and> taxable_value ln = Dec False 0 (- 2) \<and> tax_value ln = Dec False 0 (- 2)"
    if f: "\<not> truthy (dict_get kvs ''qty'' JNull)" "\<not> truthy (dict_get kvs ''rate'' JNull)"
      "\<not> truthy (dict_get kvs ''tax_rate'' JNull)"
      and h: "py_or (dict_get kvs ''hsn'' JNull) (JStr []) = JStr h"
  proof -
    have q: "item_decimal (JDict kvs) ''qty'' 1 = Inr (Dec False 1 0)"
      and r: "item_decimal (JDict kvs) ''rate'' 0 = Inr (Dec False 0 0)"
      and t: "item_decimal (JDict kvs) ''tax_rate'' 0 = Inr (Dec False 0 0)"
      using f by (simp_all add: item_decimal_falsy)
    have hc: "hsn_check (JStr h) itype
        = Inr (length (filter py_isdigit h) < recommended_of itype, recommended_of itype)"
      using hsn_join_chars [of h]
      by (simp add: hsn_check_def hsn_digits_of_def and_then_def)
    have as: "add_split mode zero_totals (Dec False 0 (- 2)) (Dec False 0 (- 2)) (Dec False 0 (- 2))
        = Inr zero_totals"
      by (cases mode) (simp_all add: add_split_def zero_totals_def zero2_def fix_money and_then_def)
    have ad: "dec_add (total_taxable zero_totals) (Dec False 0 (- 2)) = Inr (Dec False 0 (- 2))"
      "dec_add (total_tax zero_totals) (Dec False 0 (- 2)) = Inr (Dec False 0 (- 2))"
      by (simp_all add: zero_totals_def zero2_def fix_money)
    have up: "zero_totals\<lparr>total_taxable := Dec False 0 (- 2), total_tax := Dec False 0 (- 2)\<rparr>
        = zero_totals"
      by (simp add: zero_totals_def zero2_def)
    show ?thesis
      by (simp add: loop_body_def obj_get_def q r t h hc as ad up zero_line_values and_then_def
          del: dec_add.simps One_nat_def)
  qed
  from item_decimal_falsy [of kvs k d] item_decimal_truthy [of kvs k d] line
  show ?thesis by blast
qed


theorem numeric_field_defaults_witness:
  "truthy (dict_get [(''qty'', JNull)] ''qty'' JNull) = False
   \<and> item_decimal (JDict [(''qty'', JNull)]) ''qty'' 1 = Inr (Dec False 1 0)
   \<and> truthy (dict_get [(''rate'', JStr ''12.5'')] ''rate'' JNull) = True
   \<and> item_decimal (JDict [(''rate'', JStr ''12.5'')]) ''rate'' 0 = Inr (Dec False 125 (- 1))
   \<and> py_or (dict_get [(''qty'', JInt 0), (''rate'', JStr []), (''hsn'', JStr ''1234'')] ''hsn'' JNull) (JStr []) = JStr ''1234''
   \<and> (\<exists>ln. loop_body B2C INTER ([], zero_totals) (JDict [(''qty'', JInt 0), (''rate'', JStr []), (''hsn'', JStr ''1234'')]) = Inr ([ln], zero_totals)
         \<and> qty ln = Dec False 1 0 \<and> rate ln = Dec False 0 0 \<and> tax_percent ln = Dec False 0 0
         \<and> taxable_value ln = Dec False 0 (- 2) \<and> tax_value ln = Dec False 0 (- 2))"
proof -
  have a: "truthy (dict_get [(''qty'', JNull)] ''qty'' JNull) = False"
    "truthy (dict_get [(''rate'', JStr ''12.5'')] ''rate'' JNull) = True"
    by (simp_all add: dict_get_def)
  have b: "Decimal_str (dict_get [(''rate'', JStr ''12.5'')] ''rate'' JNull) = Inr (Dec False 125 (- 1))"
    by (simp add: dict_get_def parse_eval)
  have c: "\<not> truthy (dict_get [(''qty'', JInt 0), (''rate'', JStr []), (''hsn'', JStr ''1234'')] ''qty'' JNull)" "\<not> truthy (dict_get [(''qty'', JInt 0), (''rate'', JStr []), (''hsn'', JStr ''1234'')] ''rate'' JNull)"
    "\<not> truthy (dict_get [(''qty'', JInt 0), (''rate'', JStr []), (''hsn'', JStr ''1234'')] ''tax_rate'' JNull)"
    "py_or (dict_get [(''qty'', JInt 0), (''rate'', JStr []), (''hsn'', JStr ''1234'')] ''hsn'' JNull) (JStr []) = JStr ''1234''"
    by (simp_all add: dict_get_def py_or_def)
  from numeric_field_defaults [of "[(''qty'', JNull)]" "''qty''" 1 "''1234''" B2C INTER]
    numeric_field_defaults [of "[(''rate'', JStr ''12.5'')]" "''rate''" 0 "''1234''" B2C INTER]
    numeric_field_defaults [of "[(''qty'', JInt 0), (''rate'', JStr []), (''hsn'', JStr ''1234'')]"
      "''qty''" 1 "''1234''" B2C INTER]
    a b c
  show ?thesis by simp
qed

text \<open>
  A quantity that is a non-numeric string is truthy, so no default replaces it, and
  \<^verbatim>\<open>Decimal("abc")\<close> raises InvalidOperation: the view fails for the whole invoice.
\<close>

theorem non_numeric_qty_raises_counterexample:
  "invoice_viewer None None
     (Some (JDict [(''items'', JList [JDict [(''qty'', JStr ''abc'')]])]))
   = Inl InvalidOperation"
  by (simp add: view_eval and_then_def Let_def)

text \<open>
  C10, as the code has it.  The values 0, false, the empty string and null are falsy.  A
  falsy \<^verbatim>\<open>qty\<close> is read as 1, a falsy \<^verbatim>\<open>rate\<close> or \<^verbatim>\<open>tax_rate\<close> as 0.  A line
  computed from an item with a falsy \<^verbatim>\<open>qty\<close> has quantity 1 and its taxable value is
  what the code computes for 1 times the rate; that is the product rounded half-up to
  two decimals when the rate has at most 28 digits, an exponent not below Etiny and a
  magnitude below \<open>10 ^ 25\<close>.
\<close>

theorem falsy_fields_default:
  "\<not> truthy (JInt 0) \<and> \<not> truthy (JBool False) \<and> \<not> truthy (JStr []) \<and> \<not> truthy JNull
   \<and> (\<not> truthy (dict_get kvs ''qty'' JNull) \<longrightarrow>
        item_decimal (JDict kvs) ''qty'' 1 = Inr (Dec False 1 0))
   \<and> (\<not> truthy (dict_get kvs ''rate'' JNull) \<longrightarrow>
        item_decimal (JDict kvs) ''rate'' 0 = Inr (Dec False 0 0))
   \<and> (\<not> truthy (dict_get kvs ''tax_rate'' JNull) \<longrightarrow>
        item_decimal (JDict kvs) ''tax_rate'' 0 = Inr (Dec False 0 0))
   \<and> (\<not> truthy (dict_get kvs ''qty'' JNull)
        \<and> loop_body itype mode (bd, tot) (JDict kvs) = Inr (bd', tot') \<longrightarrow>
        (\<exists>l. bd' = bd @ [l] \<and> qty l = Dec False 1 0
           \<and> taxable_of (Dec False 1 0) (rate l) = Inr (taxable_value l)))
   \<and> (ndigits c \<le> 28 \<and> Etiny \<le> e \<and> \<bar>dec_val (Dec s c e)\<bar> < 10 ^ 25 \<longrightarrow>
        (\<exists>m. taxable_of (Dec False 1 0) (Dec s c e) = Inr (Dec s m (- 2))
           \<and> dec_val (Dec s m (- 2)) = round_half_up (1 * dec_val (Dec s c e)) 2))"
proof -
  have line: "\<exists>l. bd' = bd @ [l] \<and> qty l = Dec False 1 0
           \<and> taxable_of (Dec False 1 0) (rate l) = Inr (taxable_value l)"
    if f: "\<not> truthy (dict_get kvs ''qty'' JNull)"
      and b: "loop_body itype mode (bd, tot) (JDict kvs) = Inr (bd', tot')"
  proof -
    from loop_body_fields [OF b] obtain l where l: "bd' = bd @ [l]"
      "item_decimal (JDict kvs) ''qty'' 1 = Inr (qty l)"
      "taxable_of (qty l) (rate l) = Inr (taxable_value l)" by blast
    from l(2) item_decimal_falsy [OF f, of 1] have "qty l = Dec False 1 0" by simp
    with l show ?thesis by auto
  qed
  have one: "\<exists>m. taxable_of (Dec False 1 0) (Dec s c e) = Inr (Dec s m (- 2))
           \<and> dec_val (Dec s m (- 2)) = round_half_up (1 * dec_val (Dec s c e)) 2"
    if "ndigits c \<le> 28" "Etiny \<le> e" "\<bar>dec_val (Dec s c e)\<bar> < 10 ^ 25"
  proof -
    have v: "dec_val (Dec False 1 0) = 1" by (simp add: dec_val_def)
    have p: "ndigits (1 * c) \<le> 28" "Etiny \<le> 0 + e"
      "\<bar>dec_val (Dec False 1 0) * dec_val (Dec s c e)\<bar> < 10 ^ 25"
      using that by (simp_all add: v del: One_nat_def)
    from taxable_of_value [OF p] show ?thesis by (simp add: v del: One_nat_def)
  qed
  from item_decimal_falsy [of kvs "''qty''" 1] item_decimal_falsy [of kvs "''rate''" 0]
    item_decimal_falsy [of kvs "''tax_rate''" 0] line one
  show ?thesis by (simp del: One_nat_def)
qed

theorem falsy_fields_default_witness:
  "truthy (dict_get [(''qty'', JInt 0), (''rate'', JInt 150)] ''qty'' JNull) = False
   \<and> item_decimal (JDict [(''qty'', JInt 0), (''rate'', JInt 150)]) ''qty'' 1 = Inr (Dec False 1 0)
   \<and> loop_body B2C INTER ([], zero_totals) (JDict [(''qty'', JInt 0), (''rate'', JInt 150)]) = Inr ([\<lparr>description = JStr [], qty = Dec False 1 0,
          rate = Dec False 150 0, tax_percent = Dec False 0 0,
          taxable_value = Dec False 15000 (- 2), tax_value = Dec False 0 (- 2),
          cgst = Dec False 0 (- 2), sgst = Dec False 0 (- 2), igst = Dec False 0 (- 2),
          hsn = JStr [], hsn_warning = True, hsn_recommended = 4\<rparr>], \<lparr>total_taxable = Dec False 15000 (- 2), total_tax = Dec False 0 (- 2),
        total_cgst = Dec False 0 (- 2), total_sgst = Dec False 0 (- 2),
        total_igst = Dec False 0 (- 2)\<rparr>)
   \<and> truthy (dict_get [(''rate'', JBool False)] ''rate'' JNull) = False
   \<and> item_decimal (JDict [(''rate'', JBool False)]) ''rate'' 0 = Inr (Dec False 0 0)
   \<and> truthy (dict_get [(''tax_rate'', JStr [])] ''tax_rate'' JNull) = False
   \<and> item_decimal (JDict [(''tax_rate'', JStr [])]) ''tax_rate'' 0 = Inr (Dec False 0 0)
   \<and> ndigits 150 \<le> 28 \<and> Etiny \<le> 0 \<and> \<bar>dec_val (Dec False 150 0)\<bar> < 10 ^ 25
   \<and> taxable_of (Dec False 1 0) (Dec False 150 0) = Inr (Dec False 15000 (- 2))
   \<and> dec_val (Dec False 15000 (- 2)) = round_half_up (1 * dec_val (Dec False 150 0)) 2"
proof -
  have a: "truthy (dict_get [(''qty'', JInt 0), (''rate'', JInt 150)] ''qty'' JNull) = False"
    "truthy (dict_get [(''rate'', JBool False)] ''rate'' JNull) = False"
    "truthy (dict_get [(''tax_rate'', JStr [])] ''tax_rate'' JNull) = False"
    by (simp_all add: dict_get_def)
  have lb: "loop_body B2C INTER ([], zero_totals) (JDict [(''qty'', JInt 0), (''rate'', JInt 150)]) = Inr ([\<lparr>description = JStr [], qty = Dec False 1 0,
          rate = Dec False 150 0, tax_percent = Dec False 0 0,
          taxable_value = Dec False 15000 (- 2), tax_value = Dec False 0 (- 2),
          cgst = Dec False 0 (- 2), sgst = Dec False 0 (- 2), igst = Dec False 0 (- 2),
          hsn = JStr [], hsn_warning = True, hsn_recommended = 4\<rparr>], \<lparr>total_taxable = Dec False 15000 (- 2), total_tax = Dec False 0 (- 2),
        total_cgst = Dec False 0 (- 2), total_sgst = Dec False 0 (- 2),
        total_igst = Dec False 0 (- 2)\<rparr>)"
    by (simp add: view_eval dec_eval)
  have h: "ndigits 150 \<le> 28 \<and> Etiny \<le> 0 \<and> \<bar>dec_val (Dec False 150 0)\<bar> < 10 ^ 25"
    by (simp add: ndigits_le_iff ctx_defs dec_val_def)
  have t: "taxable_of (Dec False 1 0) (Dec False 150 0) = Inr (Dec False 15000 (- 2))"
    by (simp add: dec_eval)
  from falsy_fields_default [of "[(''qty'', JInt 0), (''rate'', JInt 150)]" B2C INTER "[]" zero_totals
      "[\<lparr>description = JStr [], qty = Dec False 1 0,
        rate = Dec False 150 0, tax_percent = Dec False 0 0,
        taxable_value = Dec False 15000 (- 2), tax_value = Dec False 0 (- 2),
        cgst = Dec False 0 (- 2), sgst = Dec False 0 (- 2), igst = Dec False 0 (- 2),
        hsn = JStr [], hsn_warning = True, hsn_recommended = 4\<rparr>]"
      "\<lparr>total_taxable = Dec False 15000 (- 2), total_tax = Dec False 0 (- 2),
        total_cgst = Dec False 0 (- 2), total_sgst = Dec False 0 (- 2),
        total_igst = Dec False 0 (- 2)\<rparr>"
      150 0 False]
    falsy_fields_default [of "[(''rate'', JBool False)]" B2C INTER "[]" zero_totals "[]" zero_totals 150 0 False]
    falsy_fields_default [of "[(''tax_rate'', JStr [])]" B2C INTER "[]" zero_totals "[]" zero_totals 150 0 False]
    a lb h t
  show ?thesis by (simp del: One_nat_def)
qed

text \<open>
  With a stored quantity of 0 and the rate \<^verbatim>\<open>"0.00499999999999999999999999999995"\<close>
  the quantity becomes 1 and the taxable value is 0.01, where 1 times the rate rounded
  half-up to two decimals is 0.00: the product of 30 digits is rounded by the context
  first.
\<close>

theorem zero_qty_long_rate_counterexample:
  "invoice_viewer None None
     (Some (JDict [(''items'', JList [JDict
        [(''qty'', JInt 0), (''rate'', JStr ''0.00499999999999999999999999999995'')]])]))
   = Inr \<lparr>breakdown =
        [\<lparr>description = JStr [], qty = Dec False 1 0,
          rate = Dec False 499999999999999999999999999995 (- 32), tax_percent = Dec False 0 0,
          taxable_value = Dec False 1 (- 2),
          tax_value = Dec False 0 (- 2), cgst = Dec False 0 (- 2),
          sgst = Dec False 0 (- 2), igst = Dec False 0 (- 2),
          hsn = JStr [], hsn_warning = True, hsn_recommended = 4\<rparr>],
        view_totals =
          \<lparr>total_taxable = Dec False 1 (- 2), total_tax = Dec False 0 (- 2),
            total_cgst = Dec False 0 (- 2), total_sgst = Dec False 0 (- 2),
            total_igst = Dec False 0 (- 2)\<rparr>,
        grand_total = Dec False 1 (- 2), seller_gst = [], buyer_gst = [],
        invoice_kind = B2C, mode_of_tax = INTER\<rparr>
   \<and> round_half_up (1 * dec_val (Dec False 499999999999999999999999999995 (- 32))) 2 = 0
   \<and> dec_val (Dec False 1 (- 2)) = 1 / 100"
  by (simp add: view_eval dec_eval round_half_up_def dec_val_def floor_numeral_div)

end
